theory Spec2Isabelle
  imports Main "HOL-Library.Word" "HOL-Library.Numeral_Type"
begin

unbundle bit_operations_syntax

section \<open>The data layer of the backend: \<^verbatim>\<open>backend/internal/data/models.go\<close>\<close>

text \<open>
  The package keeps user records and bearer tokens in a relational database reached
  through \<^verbatim>\<open>database/sql\<close>. The model below follows the version of the file that has
  the token operations (\<^verbatim>\<open>GenerateToken\<close>, \<^verbatim>\<open>AuthenticationToken\<close>, \<^verbatim>\<open>InsertToken\<close>,
  \<^verbatim>\<open>DeleteToken\<close>). Everything outside the package is explicit:
  \<^item> the database, the wall clock, the random source and the order of the calls made
    are fields of a \<open>world\<close> record that every operation takes and returns;
  \<^item> an \<^verbatim>\<open>error\<close> return is a value of the datatype \<open>error\<close>;
  \<^item> the library primitives (\<^verbatim>\<open>sha256.Sum256\<close>, \<^verbatim>\<open>bcrypt\<close>) are parameters of the
    operations that call them.
  Log output (\<^verbatim>\<open>log.Printf\<close>) is not part of the model.
\<close>

subsection \<open>Values\<close>

type_synonym byte = "8 word"

text \<open>
  A Go \<^verbatim>\<open>string\<close> is a sequence of bytes and \<^verbatim>\<open>len\<close> counts bytes; so is a HOL
  \<open>string\<close>. \<^verbatim>\<open>[]byte(s)\<close> is the same bytes.
\<close>

definition bytes :: "string \<Rightarrow> byte list" where
  "bytes s = map (\<lambda>c. of_nat (of_char c)) s"

definition string_of :: "byte list \<Rightarrow> string" where
  "string_of bs = map (\<lambda>b. char_of (unat b)) bs"

text \<open>
  A \<^verbatim>\<open>time.Time\<close> is an instant, counted here in nanoseconds from the Unix epoch; a
  \<^verbatim>\<open>time.Duration\<close> is a number of nanoseconds (an \<^verbatim>\<open>int64\<close> in Go: the source
  does no arithmetic on durations beyond the two constant products below, and
  \<^verbatim>\<open>Time.Add\<close> is exact on the instants a clock can show).
\<close>

definition Second :: int where
  "Second = 1000000000"

definition dbTimeout :: int where
  "dbTimeout = Second * 3"

definition zeroTime :: int where
  \<comment> \<open>the zero \<^verbatim>\<open>time.Time\<close>, January 1 of year 1\<close>
  "zeroTime = - 62135596800 * Second"

record Token =
  ID :: int
  UserID :: int
  Email :: string
  Token :: string
  TokenHash :: "byte list"
  CreatedAt :: int
  UpdatedAt :: int
  Expiry :: int

record User =
  ID :: int
  Email :: string
  FirstName :: string
  LastName :: string
  Password :: string
  CreatedAt :: int
  UpdatedAt :: int
  Token :: Token

definition zeroToken :: Token where
  \<comment> \<open>the zero value of the struct, as \<^verbatim>\<open>var token Token\<close> gives it\<close>
  "zeroToken = \<lparr>Token.ID = 0, UserID = 0, Email = [], Token = [], TokenHash = [],
     CreatedAt = zeroTime, UpdatedAt = zeroTime, Expiry = zeroTime\<rparr>"

subsection \<open>Errors\<close>

datatype db_error =
    ErrNoRows                 \<comment> \<open>\<^verbatim>\<open>sql.ErrNoRows\<close>\<close>
  | DeadlineExceeded          \<comment> \<open>the context of the call is past its deadline\<close>
  | UndefinedColumn string    \<comment> \<open>the statement names a column the table does not have\<close>
  | UniqueViolation string    \<comment> \<open>a second row with the same value in a UNIQUE column\<close>
  | ForeignKeyViolation string
      \<comment> \<open>a row of \<^verbatim>\<open>tokens\<close> would reference no row of \<^verbatim>\<open>users\<close>\<close>
  | InvalidTextRepresentation string
      \<comment> \<open>a text argument that is no value of the column it is compared with\<close>
  | DriverError nat           \<comment> \<open>any other failure of the connection or the server\<close>

datatype bcrypt_error =
    ErrMismatchedHashAndPassword
  | ErrHashTooShort
  | ErrPasswordTooLong
  | InvalidHashPrefixError
  | HashVersionTooNewError
  | InvalidCostError

datatype error =
    Db db_error                            \<comment> \<open>a database error returned as it is\<close>
  | Bcrypt bcrypt_error                    \<comment> \<open>a bcrypt error returned as it is\<close>
  | RandError                              \<comment> \<open>the error of \<^verbatim>\<open>rand.Read\<close>\<close>
  | NoUserFoundWithEmail string            \<comment> \<open>"no user found with email %s"\<close>
  | UserNotFound                           \<comment> \<open>"user not found"\<close>
  | NoPlainTextFound string                \<comment> \<open>"no plainText found with plainText %s"\<close>
  | NoUserFoundWithToken Token             \<comment> \<open>"no user found with token %v"\<close>
  | NoUserFoundWithTokenString string      \<comment> \<open>the same message, for a token string\<close>
  | FailedToInsertUserAfter nat "db_error option"
      \<comment> \<open>"failed to insert user after %d attempts: %w"\<close>
  | NoTokenProvided                        \<comment> \<open>"no token provided"\<close>
  | InvalidTokenFormat                     \<comment> \<open>"invalid token format"\<close>
  | InvalidTokenLength                     \<comment> \<open>"invalid token length"\<close>
  | NoMatchingTokenFound                   \<comment> \<open>"no matching token found"\<close>
  | TokenExpired                           \<comment> \<open>"token expired"\<close>
  | NoMatchingUserFound                    \<comment> \<open>"no matching user found"\<close>

subsection \<open>The database\<close>

datatype sqlval = VInt int | VText string | VBytes "byte list" | VTime int

datatype relation = Users | Tokens

datatype stmt =
    SelectFrom relation "string list" "(string \<times> sqlval) option"
      \<comment> \<open>SELECT columns FROM relation [WHERE column = value]\<close>
  | InsertInto relation "(string \<times> sqlval) list" "string list"
      \<comment> \<open>INSERT INTO relation (columns) VALUES (values) [RETURNING columns]\<close>
  | UpdateSet relation "(string \<times> sqlval) list" "string \<times> sqlval"
      \<comment> \<open>UPDATE relation SET column = value, ... WHERE column = value\<close>
  | DeleteFrom relation "string \<times> sqlval"
      \<comment> \<open>DELETE FROM relation WHERE column = value\<close>

fun relation_of :: "stmt \<Rightarrow> relation" where
  "relation_of (SelectFrom r _ _) = r"
| "relation_of (InsertInto r _ _) = r"
| "relation_of (UpdateSet r _ _) = r"
| "relation_of (DeleteFrom r _) = r"

fun mentions :: "stmt \<Rightarrow> string list" where
  "mentions (SelectFrom _ cs None) = cs"
| "mentions (SelectFrom _ cs (Some (c, _))) = cs @ [c]"
| "mentions (InsertInto _ kvs rs) = map fst kvs @ rs"
| "mentions (UpdateSet _ kvs (c, _)) = map fst kvs @ [c]"
| "mentions (DeleteFrom _ (c, _)) = [c]"

record users_row =
  users_id :: int
  users_email :: string
  users_first_name :: string
  users_last_name :: string
  users_password :: string
  users_created_at :: int
  users_updated_at :: int

record tokens_row =
  tokens_id :: int
  tokens_user_id :: int
  tokens_email :: string
  tokens_token :: string
  tokens_token_hash :: "byte list"
  tokens_created_at :: int
  tokens_updated_at :: int
  tokens_expiry :: int

datatype event =
    Issued stmt int     \<comment> \<open>a statement handed to the database, and the clock then\<close>
  | Slept int           \<comment> \<open>\<^verbatim>\<open>time.Sleep\<close> of a duration\<close>
  | RandRead nat        \<comment> \<open>\<^verbatim>\<open>rand.Read\<close> into a buffer of that many bytes\<close>

record world =
  clock :: int                         \<comment> \<open>what \<^verbatim>\<open>time.Now()\<close> returns\<close>
  users :: "users_row list"
  users_serial :: int                  \<comment> \<open>the next generated id of \<^verbatim>\<open>users\<close>\<close>
  tokens :: "tokens_row list"
  tokens_serial :: int                 \<comment> \<open>the next generated id of \<^verbatim>\<open>tokens\<close>\<close>
  token_column :: string               \<comment> \<open>the name of the column of \<^verbatim>\<open>tokens\<close> that holds the token string\<close>
  faults :: "db_error option list"     \<comment> \<open>what the connection does to the statements to come\<close>
  entropy :: "byte list"               \<comment> \<open>the bytes the random source can still deliver\<close>
  trace :: "event list"                \<comment> \<open>the calls made so far, oldest first\<close>

text \<open>
  Modelled from the spec: the schema of the two tables, which no source file declares.
  Section 6 of the spec gives
  \<^verbatim>\<open>users(id, email UNIQUE, first_name, last_name, password, created_at, updated_at)\<close> and
  \<^verbatim>\<open>tokens(id, user_id REFERENCES users(id), email, token, token_hash, created_at,
  updated_at, expiry)\<close>, with generated ids. So
  \<^item> no two rows of \<^verbatim>\<open>users\<close> have the same email: a statement that would make it so
    fails;
  \<^item> a row of \<^verbatim>\<open>tokens\<close> references a row of \<^verbatim>\<open>users\<close>: the insert of a token for a
    user id that no row has fails, and so does the delete of a user that a token row
    references (token rows are not cascade-deleted, section 3 of the spec).
  The statements of the source agree on every column name but one: \<^verbatim>\<open>InsertToken\<close>
  writes the token string to \<^verbatim>\<open>token\<close>, \<^verbatim>\<open>GetByToken\<close> and \<^verbatim>\<open>DeleteToken\<close> look it up
  in \<^verbatim>\<open>plainText\<close>. So the name of that column is a field of the world
  (\<open>token_column\<close>); the spec's table has \<open>''token''\<close> there.
\<close>

definition users_columns :: "string list" where
  "users_columns = [''id'', ''email'', ''first_name'', ''last_name'', ''password'',
     ''created_at'', ''updated_at'']"

definition columns :: "world \<Rightarrow> relation \<Rightarrow> string list" where
  "columns w r = (case r of
      Users \<Rightarrow> users_columns
    | Tokens \<Rightarrow> [''id'', ''user_id'', ''email'', token_column w, ''token_hash'',
                 ''created_at'', ''updated_at'', ''expiry''])"

definition undefined_column :: "world \<Rightarrow> stmt \<Rightarrow> string option" where
  "undefined_column w q = find (\<lambda>c. c \<notin> set (columns w (relation_of q))) (mentions q)"

subsection \<open>Calls into \<^verbatim>\<open>database/sql\<close>\<close>

text \<open>
  \<^verbatim>\<open>context.WithTimeout(context.Background(), d)\<close> fixes a deadline, \<open>d\<close> after
  the clock at the moment of the call. In the model the clock moves only when the
  program sleeps.
\<close>

definition WithTimeout :: "world \<Rightarrow> int \<Rightarrow> int" where
  "WithTimeout w d = clock w + d"

definition Sleep :: "int \<Rightarrow> world \<Rightarrow> world" where
  "Sleep d w = w\<lparr>clock := clock w + d, trace := trace w @ [Slept d]\<rparr>"

text \<open>
  A statement handed to the database is recorded in the trace. It fails at once when
  the context is past its deadline; otherwise the connection does to it what \<open>faults\<close>
  says next (nothing when the list is empty or its head is \<open>None\<close>); a statement that
  reaches the server fails when it names a column its table does not have.
\<close>

definition issue :: "int \<Rightarrow> stmt \<Rightarrow> world \<Rightarrow> db_error option \<times> world" where
  "issue ctx q w =
     (let w1 = w\<lparr>trace := trace w @ [Issued q (clock w)]\<rparr> in
      if ctx \<le> clock w1 then (Some DeadlineExceeded, w1)
      else (case faults w1 of
          Some e # fs \<Rightarrow> (Some e, w1\<lparr>faults := fs\<rparr>)
        | _ \<Rightarrow>
          (let w2 = w1\<lparr>faults := tl (faults w1)\<rparr> in
           case undefined_column w2 q of
             Some c \<Rightarrow> (Some (UndefinedColumn c), w2)
           | None \<Rightarrow> (None, w2))))"

text \<open>
  \<^verbatim>\<open>db.QueryContext\<close> with the loop over \<^verbatim>\<open>rows.Next()\<close>: all rows the statement selects.
\<close>

definition QueryContext ::
  "int \<Rightarrow> stmt \<Rightarrow> (world \<Rightarrow> 'r list) \<Rightarrow> world \<Rightarrow> (db_error + 'r list) \<times> world" where
  "QueryContext ctx q sel w =
     (case issue ctx q w of
        (Some e, w') \<Rightarrow> (Inl e, w')
      | (None, w') \<Rightarrow> (Inr (sel w'), w'))"

text \<open>
  \<^verbatim>\<open>db.QueryRowContext(...).Scan(...)\<close>: the first row the statement selects, and
  \<^verbatim>\<open>sql.ErrNoRows\<close> when there is none. The statement may change the table
  (\<^verbatim>\<open>INSERT ... returning id\<close>), so the selection returns the world as well.
\<close>

definition QueryRowContext ::
  "int \<Rightarrow> stmt \<Rightarrow> (world \<Rightarrow> (db_error + 'r) \<times> world) \<Rightarrow> world \<Rightarrow> (db_error + 'r) \<times> world" where
  "QueryRowContext ctx q run w =
     (case issue ctx q w of
        (Some e, w') \<Rightarrow> (Inl e, w')
      | (None, w') \<Rightarrow> run w')"

definition first_row :: "('r \<Rightarrow> bool) \<Rightarrow> 'r list \<Rightarrow> db_error + 'r" where
  "first_row p rs = (case find p rs of None \<Rightarrow> Inl ErrNoRows | Some r \<Rightarrow> Inr r)"

text \<open>
  \<^verbatim>\<open>db.ExecContext\<close>: the statement's effect on the tables, or an error. The source
  drops the \<^verbatim>\<open>sql.Result\<close> (the count of rows affected) every time.
\<close>

definition ExecContext ::
  "int \<Rightarrow> stmt \<Rightarrow> (world \<Rightarrow> db_error + world) \<Rightarrow> world \<Rightarrow> db_error option \<times> world" where
  "ExecContext ctx q eff w =
     (case issue ctx q w of
        (Some e, w') \<Rightarrow> (Some e, w')
      | (None, w') \<Rightarrow> (case eff w' of Inl e \<Rightarrow> (Some e, w') | Inr w'' \<Rightarrow> (None, w'')))"

definition scan_user :: "users_row \<Rightarrow> User" where
  \<comment> \<open>\<^verbatim>\<open>var user User\<close> and the \<^verbatim>\<open>Scan\<close> of the seven columns into its fields\<close>
  "scan_user r = \<lparr>User.ID = users_id r, Email = users_email r,
     FirstName = users_first_name r, LastName = users_last_name r,
     Password = users_password r, CreatedAt = users_created_at r,
     UpdatedAt = users_updated_at r, Token = zeroToken\<rparr>"

definition scan_token :: "tokens_row \<Rightarrow> Token" where
  "scan_token r = \<lparr>Token.ID = tokens_id r, UserID = tokens_user_id r,
     Email = tokens_email r, Token = tokens_token r, TokenHash = tokens_token_hash r,
     CreatedAt = tokens_created_at r, UpdatedAt = tokens_updated_at r,
     Expiry = tokens_expiry r\<rparr>"

subsection \<open>The statements of the source\<close>

text \<open>
  Each SQL text of the source, as the relation, the columns and the arguments it names.
  \<^verbatim>\<open>GetByID\<close> and \<^verbatim>\<open>GetUserByToken\<close> send the same text.
\<close>

definition select_users :: stmt where
  \<comment> \<open>\<^verbatim>\<open>SELECT id, email, first_name, last_name, password, created_at, updated_at FROM users\<close>\<close>
  "select_users = SelectFrom Users users_columns None"

definition select_user_by_email :: "string \<Rightarrow> stmt" where
  \<comment> \<open>\<^verbatim>\<open>SELECT id, email, ... FROM users WHERE email = $1\<close>\<close>
  "select_user_by_email email = SelectFrom Users users_columns (Some (''email'', VText email))"

definition select_user :: "int \<Rightarrow> stmt" where
  \<comment> \<open>\<^verbatim>\<open>SELECT id, email, ... FROM users WHERE id = $1\<close>\<close>
  "select_user uid = SelectFrom Users users_columns (Some (''id'', VInt uid))"

definition select_user_with_token :: "string \<Rightarrow> stmt" where
  \<comment> \<open>the same text again, sent by \<^verbatim>\<open>GetUserWithToken\<close> and \<^verbatim>\<open>VaildateToken\<close> with
      the token string as its argument\<close>
  "select_user_with_token token = SelectFrom Users users_columns (Some (''id'', VText token))"

definition update_user :: "User \<Rightarrow> stmt" where
  \<comment> \<open>\<^verbatim>\<open>UPDATE users SET email = $1, first_name = $2, last_name = $3, updated_at = $4 WHERE id = $5\<close>\<close>
  "update_user user = UpdateSet Users
     [(''email'', VText (User.Email user)), (''first_name'', VText (FirstName user)),
      (''last_name'', VText (LastName user)), (''updated_at'', VTime (User.UpdatedAt user))]
     (''id'', VInt (User.ID user))"

definition delete_user :: "int \<Rightarrow> stmt" where
  \<comment> \<open>\<^verbatim>\<open>DELETE FROM users WHERE id = $1\<close>\<close>
  "delete_user uid = DeleteFrom Users (''id'', VInt uid)"

definition insert_user :: "User \<Rightarrow> byte list \<Rightarrow> stmt" where
  \<comment> \<open>\<^verbatim>\<open>INSERT INTO users (email, first_name, last_name, password, created_at, updated_at)
      VALUES ($1, $2, $3, $4, $5, $6) returning id\<close>\<close>
  "insert_user user hashedPassword = InsertInto Users
     [(''email'', VText (User.Email user)), (''first_name'', VText (FirstName user)),
      (''last_name'', VText (LastName user)), (''password'', VBytes hashedPassword),
      (''created_at'', VTime (User.CreatedAt user)),
      (''updated_at'', VTime (User.UpdatedAt user))]
     [''id'']"

definition update_password :: "string \<Rightarrow> int \<Rightarrow> stmt" where
  \<comment> \<open>\<^verbatim>\<open>update users set password = $1 where id = $2\<close>\<close>
  "update_password password uid =
     UpdateSet Users [(''password'', VText password)] (''id'', VInt uid)"

definition select_token :: "string \<Rightarrow> stmt" where
  \<comment> \<open>\<^verbatim>\<open>SELECT id, user_id, email, plainText, token_hash, created_at, updated_at, expiry
      FROM tokens WHERE plainText = $1\<close>\<close>
  "select_token plainText = SelectFrom Tokens
     [''id'', ''user_id'', ''email'', ''plainText'', ''token_hash'', ''created_at'',
      ''updated_at'', ''expiry'']
     (Some (''plainText'', VText plainText))"

definition delete_token :: "string \<Rightarrow> stmt" where
  \<comment> \<open>\<^verbatim>\<open>DELETE FROM tokens WHERE plainText = $1\<close>\<close>
  "delete_token plainText = DeleteFrom Tokens (''plainText'', VText plainText)"

definition insert_token :: "Token \<Rightarrow> int \<Rightarrow> stmt" where
  \<comment> \<open>\<^verbatim>\<open>INSERT INTO tokens (user_id, email, token, token_hash, created_at, updated_at, expiry)
      VALUES ($1, $2, $3, $4, $5, $6, $7)\<close>, with \<^verbatim>\<open>time.Now()\<close> for both timestamps\<close>
  "insert_token token now = InsertInto Tokens
     [(''user_id'', VInt (UserID token)), (''email'', VText (Token.Email token)),
      (''token'', VText (Token.Token token)), (''token_hash'', VBytes (TokenHash token)),
      (''created_at'', VTime now), (''updated_at'', VTime now),
      (''expiry'', VTime (Expiry token))]
     []"

subsection \<open>Credential Store: the methods of \<^verbatim>\<open>User\<close>\<close>

definition GetAll :: "world \<Rightarrow> (error + User list) \<times> world" where
  "GetAll w =
     (let ctx = WithTimeout w dbTimeout;
          query = select_users in
      case QueryContext ctx query (\<lambda>w. map scan_user (users w)) w of
        (Inl err, w') \<Rightarrow> (Inl (Db err), w')
      | (Inr us, w') \<Rightarrow> (Inr us, w'))"

definition GetByEmail :: "string \<Rightarrow> world \<Rightarrow> (error + User) \<times> world" where
  "GetByEmail email w =
     (let ctx = WithTimeout w dbTimeout;
          query = select_user_by_email email in
      case QueryRowContext ctx query
             (\<lambda>w. (first_row (\<lambda>r. users_email r = email) (users w), w)) w of
        (Inl err, w') \<Rightarrow>
          if err = ErrNoRows then (Inl (NoUserFoundWithEmail email), w')
          else (Inl (Db err), w')
      | (Inr r, w') \<Rightarrow> (Inr (scan_user r), w'))"

definition GetByID :: "int \<Rightarrow> world \<Rightarrow> (error + User) \<times> world" where
  "GetByID uid w =
     (let ctx = WithTimeout w dbTimeout;
          query = select_user uid in
      case QueryRowContext ctx query
             (\<lambda>w. (first_row (\<lambda>r. users_id r = uid) (users w), w)) w of
        (Inl err, w') \<Rightarrow>
          if err = ErrNoRows then (Inl UserNotFound, w')
          else (Inl (Db err), w')
      | (Inr r, w') \<Rightarrow> (Inr (scan_user r), w'))"

text \<open>
  The column \<^verbatim>\<open>email\<close> is UNIQUE: an update that would give a second row the same
  email fails. An update of an id that no row has changes nothing and is no error.
\<close>

definition Update :: "User \<Rightarrow> world \<Rightarrow> error option \<times> world" where
  "Update user w =
     (let ctx = WithTimeout w dbTimeout;
          query = update_user user in
      case ExecContext ctx query
             (\<lambda>w. if (\<exists>r \<in> set (users w). users_id r = User.ID user)
                      \<and> (\<exists>r \<in> set (users w). users_id r \<noteq> User.ID user
                             \<and> users_email r = User.Email user)
                   then Inl (UniqueViolation ''email'')
                   else Inr (w\<lparr>users := map (\<lambda>r. if users_id r = User.ID user
                          then r\<lparr>users_email := User.Email user,
                                 users_first_name := FirstName user,
                                 users_last_name := LastName user,
                                 users_updated_at := User.UpdatedAt user\<rparr>
                          else r) (users w)\<rparr>)) w of
        (Some err, w') \<Rightarrow> (Some (Db err), w')
      | (None, w') \<Rightarrow> (None, w'))"

text \<open>
  \<^verbatim>\<open>DELETE FROM users WHERE id = $1\<close>: every row with that id goes; there may be none.
  The statement fails, and removes nothing, when a row it would remove is referenced
  by a row of \<^verbatim>\<open>tokens\<close>.
\<close>

definition referenced_user :: "int \<Rightarrow> world \<Rightarrow> bool" where
  "referenced_user uid w \<longleftrightarrow>
     (\<exists>r \<in> set (users w). users_id r = uid) \<and> (\<exists>t \<in> set (tokens w). tokens_user_id t = uid)"

definition delete_users_rows :: "int \<Rightarrow> world \<Rightarrow> db_error + world" where
  "delete_users_rows uid w =
     (if referenced_user uid w
      then Inl (ForeignKeyViolation ''user_id'')
      else Inr (w\<lparr>users := filter (\<lambda>r. users_id r \<noteq> uid) (users w)\<rparr>))"

definition Delete :: "int \<Rightarrow> world \<Rightarrow> error option \<times> world" where
  "Delete uid w =
     (let ctx = WithTimeout w dbTimeout;
          query = delete_user uid in
      case ExecContext ctx query (delete_users_rows uid) w of
        (Some err, w') \<Rightarrow> (Some (Db err), w')
      | (None, w') \<Rightarrow> (None, w'))"

text \<open>
  \<^verbatim>\<open>INSERT INTO users (email, first_name, last_name, password, created_at, updated_at)
  VALUES ($1, $2, $3, $4, $5, $6) returning id\<close>: the new row takes the next generated
  id, which the statement returns.
\<close>

definition insert_users_row :: "User \<Rightarrow> byte list \<Rightarrow> world \<Rightarrow> (db_error + int) \<times> world" where
  "insert_users_row user hashedPassword w =
     (if \<exists>r \<in> set (users w). users_email r = User.Email user
      then (Inl (UniqueViolation ''email''), w)
      else (let newID = users_serial w in
        (Inr newID,
         w\<lparr>users := users w @
              [\<lparr>users_id = newID, users_email = User.Email user,
                users_first_name = FirstName user, users_last_name = LastName user,
                users_password = string_of hashedPassword,
                users_created_at = User.CreatedAt user,
                users_updated_at = User.UpdatedAt user\<rparr>],
           users_serial := newID + 1\<rparr>)))"

definition retryCount :: nat where
  "retryCount = 3"

text \<open>
  The loop \<^verbatim>\<open>for retries := 0; retries < retryCount; retries++\<close> of \<^verbatim>\<open>Insert\<close>.
  \<open>err\<close> is the variable of that name: the error of the last attempt. On success the
  source assigns the new id to its own copy of \<^verbatim>\<open>user\<close> and returns \<^verbatim>\<open>0, nil\<close>.
\<close>

function Insert_loop ::
  "int \<Rightarrow> stmt \<Rightarrow> User \<Rightarrow> byte list \<Rightarrow> nat \<Rightarrow> db_error option \<Rightarrow> world \<Rightarrow> (error + int) \<times> world" where
  "Insert_loop ctx query user hashedPassword retries err w =
     (if retries < retryCount then
        (case QueryRowContext ctx query (insert_users_row user hashedPassword) w of
           (Inr newID, w') \<Rightarrow> (Inr 0, w')
         | (Inl e, w') \<Rightarrow>
             Insert_loop ctx query user hashedPassword (retries + 1) (Some e)
               (if retries < retryCount - 1 then Sleep (Second * 2) w' else w'))
      else (Inl (FailedToInsertUserAfter retryCount err), w))"
  by pat_completeness auto
termination
  by (relation "measure (\<lambda>(ctx, query, user, hashedPassword, retries, err, w). retryCount - retries)")
     auto

declare Insert_loop.simps [simp del]

definition Insert ::
  "(byte list \<Rightarrow> nat \<Rightarrow> bcrypt_error + byte list) \<Rightarrow> User \<Rightarrow> world \<Rightarrow> (error + int) \<times> world" where
  "Insert GenerateFromPassword user w =
     (let ctx = WithTimeout w dbTimeout in
      case GenerateFromPassword (bytes (User.Password user)) 12 of
        Inl err \<Rightarrow> (Inl (Bcrypt err), w)
      | Inr hashedPassword \<Rightarrow>
         (let query = insert_user user hashedPassword in
          Insert_loop ctx query user hashedPassword 0 None w))"

text \<open>
  \<^verbatim>\<open>update users set password = $1 where id = $2\<close>. The source logs an error of the
  statement and returns \<^verbatim>\<open>nil\<close> all the same.
\<close>

definition ResetPassword :: "User \<Rightarrow> string \<Rightarrow> world \<Rightarrow> error option \<times> world" where
  "ResetPassword u password w =
     (let ctx = WithTimeout w dbTimeout;
          query = update_password password (User.ID u) in
      case ExecContext ctx query
             (\<lambda>w. Inr (w\<lparr>users := map (\<lambda>r. if users_id r = User.ID u
                          then r\<lparr>users_password := password\<rparr> else r) (users w)\<rparr>)) w of
        (_, w') \<Rightarrow> (None, w'))"

definition PasswordMatches ::
  "(byte list \<Rightarrow> byte list \<Rightarrow> bcrypt_error option) \<Rightarrow> User \<Rightarrow> string \<Rightarrow> bool \<times> error option" where
  "PasswordMatches CompareHashAndPassword u password =
     (case CompareHashAndPassword (bytes (User.Password u)) (bytes password) of
        Some err \<Rightarrow>
          if err = ErrMismatchedHashAndPassword then (False, None)
          else (False, Some (Bcrypt err))
      | None \<Rightarrow> (True, None))"

subsection \<open>Token Store and Token Issuer: the methods of \<^verbatim>\<open>Token\<close>\<close>

text \<open>
  \<^verbatim>\<open>SELECT id, user_id, email, plainText, token_hash, created_at, updated_at, expiry
  FROM tokens WHERE plainText = $1\<close>. The statement is valid only on a table whose
  token column is called \<^verbatim>\<open>plainText\<close> (the check of \<open>issue\<close>); the row it then
  selects is the first one whose token string is the argument. Column names are
  compared as the statements write them.
\<close>

definition GetByToken :: "string \<Rightarrow> world \<Rightarrow> (error + Token) \<times> world" where
  "GetByToken plainText w =
     (let ctx = WithTimeout w dbTimeout;
          query = select_token plainText in
      case QueryRowContext ctx query
             (\<lambda>w. (first_row (\<lambda>r. tokens_token r = plainText) (tokens w), w)) w of
        (Inl err, w') \<Rightarrow>
          if err = ErrNoRows then (Inl (NoPlainTextFound plainText), w')
          else (Inl (Db err), w')
      | (Inr r, w') \<Rightarrow> (Inr (scan_token r), w'))"

definition GetUserByToken :: "Token \<Rightarrow> world \<Rightarrow> (error + User) \<times> world" where
  "GetUserByToken token w =
     (let ctx = WithTimeout w dbTimeout;
          query = select_user (UserID token) in
      case QueryRowContext ctx query
             (\<lambda>w. (first_row (\<lambda>r. users_id r = UserID token) (users w), w)) w of
        (Inl err, w') \<Rightarrow>
          if err = ErrNoRows then (Inl (NoUserFoundWithToken token), w')
          else (Inl (Db err), w')
      | (Inr r, w') \<Rightarrow> (Inr (scan_user r), w'))"

text \<open>
  \<^verbatim>\<open>base32.StdEncoding.WithPadding(base32.NoPadding).EncodeToString\<close>: the alphabet of
  RFC 4648, eight symbols for each five bytes, most significant bits first, and for
  a last group of one to four bytes only the symbols that carry bits of it.
\<close>

definition encodeStd :: string where
  "encodeStd = ''ABCDEFGHIJKLMNOPQRSTUVWXYZ234567''"

definition symbol :: "byte \<Rightarrow> char" where
  "symbol b = encodeStd ! unat (b AND 0x1F)"

fun EncodeToString :: "byte list \<Rightarrow> string" where
  "EncodeToString (s0 # s1 # s2 # s3 # s4 # src) =
     map symbol
       [drop_bit 3 s0, push_bit 2 s0 OR drop_bit 6 s1, drop_bit 1 s1,
        push_bit 4 s1 OR drop_bit 4 s2, push_bit 1 s2 OR drop_bit 7 s3, drop_bit 2 s3,
        push_bit 3 s3 OR drop_bit 5 s4, s4]
     @ EncodeToString src"
| "EncodeToString [s0, s1, s2, s3] =
     map symbol
       [drop_bit 3 s0, push_bit 2 s0 OR drop_bit 6 s1, drop_bit 1 s1,
        push_bit 4 s1 OR drop_bit 4 s2, push_bit 1 s2 OR drop_bit 7 s3, drop_bit 2 s3,
        push_bit 3 s3]"
| "EncodeToString [s0, s1, s2] =
     map symbol
       [drop_bit 3 s0, push_bit 2 s0 OR drop_bit 6 s1, drop_bit 1 s1,
        push_bit 4 s1 OR drop_bit 4 s2, push_bit 1 s2]"
| "EncodeToString [s0, s1] =
     map symbol [drop_bit 3 s0, push_bit 2 s0 OR drop_bit 6 s1, drop_bit 1 s1, push_bit 4 s1]"
| "EncodeToString [s0] = map symbol [drop_bit 3 s0, push_bit 2 s0]"
| "EncodeToString [] = []"

text \<open>
  \<^verbatim>\<open>rand.Read(buf)\<close> fills the whole buffer or returns an error. The source is the
  \<open>entropy\<close> of the world: the read fails when it cannot fill the buffer.
\<close>

definition rand_Read :: "nat \<Rightarrow> world \<Rightarrow> (error + byte list) \<times> world" where
  "rand_Read n w =
     (let w1 = w\<lparr>trace := trace w @ [RandRead n]\<rparr> in
      if length (entropy w1) < n then (Inl RandError, w1)
      else (Inr (take n (entropy w1)), w1\<lparr>entropy := drop n (entropy w1)\<rparr>))"

text \<open>
  \<^verbatim>\<open>sha256.Sum256\<close> returns a \<^verbatim>\<open>[32]byte\<close>, here a word of 256 bits; \<^verbatim>\<open>hash[:]\<close> is
  the slice of its 32 bytes.
\<close>

definition bytes32 :: "256 word \<Rightarrow> byte list" where
  "bytes32 h = map (\<lambda>i. ucast (drop_bit (8 * (31 - i)) h)) [0..<32]"

definition GenerateToken ::
  "(byte list \<Rightarrow> 256 word) \<Rightarrow> int \<Rightarrow> int \<Rightarrow> world \<Rightarrow> (error + Token) \<times> world" where
  "GenerateToken Sum256 userID ttl w =
     (let token = zeroToken\<lparr>UserID := userID, Expiry := clock w + ttl\<rparr> in
      case rand_Read 16 w of
        (Inl err, w') \<Rightarrow> (Inl err, w')
      | (Inr randomBytes, w') \<Rightarrow>
         (let token = token\<lparr>Token.Token := EncodeToString randomBytes\<rparr>;
              hash = Sum256 (bytes (Token.Token token)) in
          (Inr (token\<lparr>TokenHash := bytes32 hash\<rparr>), w')))"

text \<open>\<^verbatim>\<open>strings.Split(s, sep)\<close> for a separator of one byte.\<close>

fun Split :: "string \<Rightarrow> char \<Rightarrow> string list" where
  "Split [] sep = [[]]"
| "Split (c # s) sep =
     (if c = sep then [] # Split s sep
      else (c # hd (Split s sep)) # tl (Split s sep))"

text \<open>
  \<^verbatim>\<open>AuthenticationToken\<close> reads the request only through
  \<^verbatim>\<open>r.Header.Get("Authorization")\<close>, the value of the header or the empty string; that
  value is the argument here.
\<close>

definition AuthenticationToken :: "string \<Rightarrow> world \<Rightarrow> (error + User) \<times> world" where
  "AuthenticationToken authorization w =
     (let token = authorization in
      if token = [] then (Inl NoTokenProvided, w)
      else (let headerParts = Split token CHR '' '' in
        if length headerParts \<noteq> 2 \<or> headerParts ! 0 \<noteq> ''Bearer''
        then (Inl InvalidTokenFormat, w)
        else (let tk = headerParts ! 1 in
          if length tk \<noteq> 26 then (Inl InvalidTokenLength, w)
          else (case GetByToken tk w of
              (Inl err, w1) \<Rightarrow> (Inl NoMatchingTokenFound, w1)
            | (Inr tokenModel, w1) \<Rightarrow>
                if Expiry tokenModel < clock w1 then (Inl TokenExpired, w1)
                else (case GetUserByToken tokenModel w1 of
                    (Inl err, w2) \<Rightarrow> (Inl NoMatchingUserFound, w2)
                  | (Inr user, w2) \<Rightarrow> (Inr user, w2))))))"

definition DeleteToken :: "string \<Rightarrow> world \<Rightarrow> error option \<times> world" where
  "DeleteToken plainText w =
     (let ctx = WithTimeout w dbTimeout;
          query = delete_token plainText in
      case ExecContext ctx query
             (\<lambda>w. Inr (w\<lparr>tokens := filter (\<lambda>r. tokens_token r \<noteq> plainText) (tokens w)\<rparr>)) w of
        (Some err, w') \<Rightarrow> (Some (Db err), w')
      | (None, w') \<Rightarrow> (None, w'))"

text \<open>
  \<^verbatim>\<open>INSERT INTO tokens (user_id, email, token, token_hash, created_at, updated_at, expiry)\<close>
  with \<^verbatim>\<open>time.Now()\<close> for both timestamps; the id is generated. The statement fails
  when no row of \<^verbatim>\<open>users\<close> has the user id.
\<close>

definition insert_tokens_row :: "Token \<Rightarrow> world \<Rightarrow> db_error + world" where
  "insert_tokens_row token w =
     (if \<not> (\<exists>r \<in> set (users w). users_id r = UserID token)
      then Inl (ForeignKeyViolation ''user_id'')
      else Inr (w\<lparr>tokens := tokens w @
              [\<lparr>tokens_id = tokens_serial w, tokens_user_id = UserID token,
                tokens_email = Token.Email token, tokens_token = Token.Token token,
                tokens_token_hash = TokenHash token,
                tokens_created_at = clock w, tokens_updated_at = clock w,
                tokens_expiry = Expiry token\<rparr>],
           tokens_serial := tokens_serial w + 1\<rparr>))"

definition InsertToken :: "Token \<Rightarrow> world \<Rightarrow> error option \<times> world" where
  "InsertToken token w =
     (let ctx = WithTimeout w dbTimeout in
      case DeleteToken (Token.Token token) w of
        (Some err, w1) \<Rightarrow> (Some err, w1)
      | (None, w1) \<Rightarrow>
         (let query = insert_token token (clock w1) in
          case ExecContext ctx query (insert_tokens_row token) w1 of
            (Some err, w2) \<Rightarrow> (Some (Db err), w2)
          | (None, w2) \<Rightarrow> (None, w2)))"

text \<open>
  \<^verbatim>\<open>GetUserWithToken\<close> and \<^verbatim>\<open>VaildateToken\<close> send
  \<^verbatim>\<open>SELECT ... FROM users WHERE id = $1\<close> with the token string as the argument. Which
  integer the server reads from that text is a parameter, \<open>int_of_text\<close>; where it
  reads none, the statement fails.
\<close>

definition select_users_row_with_token ::
  "(string \<Rightarrow> int option) \<Rightarrow> string \<Rightarrow> world \<Rightarrow> (db_error + users_row) \<times> world" where
  "select_users_row_with_token int_of_text token w =
     (case int_of_text token of
        None \<Rightarrow> (Inl (InvalidTextRepresentation token), w)
      | Some uid \<Rightarrow> (first_row (\<lambda>r. users_id r = uid) (users w), w))"

definition GetUserWithToken ::
  "(string \<Rightarrow> int option) \<Rightarrow> string \<Rightarrow> world \<Rightarrow> (error + User) \<times> world" where
  "GetUserWithToken int_of_text token w =
     (let ctx = WithTimeout w dbTimeout;
          query = select_user_with_token token in
      case QueryRowContext ctx query (select_users_row_with_token int_of_text token) w of
        (Inl err, w') \<Rightarrow>
          if err = ErrNoRows then (Inl (NoUserFoundWithTokenString token), w')
          else (Inl (Db err), w')
      | (Inr r, w') \<Rightarrow> (Inr (scan_user r), w'))"

definition VaildateToken ::
  "(string \<Rightarrow> int option) \<Rightarrow> string \<Rightarrow> world \<Rightarrow> (bool \<times> error option) \<times> world" where
  "VaildateToken int_of_text token w =
     (let ctx = WithTimeout w dbTimeout;
          query = select_user_with_token token in
      case QueryRowContext ctx query (select_users_row_with_token int_of_text token) w of
        (Inl err, w') \<Rightarrow>
          if err = ErrNoRows then ((False, Some (NoUserFoundWithTokenString token)), w')
          else ((False, Some (Db err)), w')
      | (Inr r, w') \<Rightarrow> ((True, None), w'))"

subsection \<open>Vocabulary of the properties\<close>

text \<open>
  The header shape of the spec, \<^verbatim>\<open>Bearer <token>\<close> with a single space between the
  scheme and the value: the value itself holds no space.
\<close>

definition bearer_shape :: "string \<Rightarrow> string \<Rightarrow> bool" where
  "bearer_shape header t \<longleftrightarrow> header = ''Bearer '' @ t \<and> CHR '' '' \<notin> set t"

text \<open>What an operation added to the trace, and the statements among it.\<close>

definition new_events :: "world \<Rightarrow> world \<Rightarrow> event list" where
  "new_events w w' = drop (length (trace w)) (trace w')"

fun statements :: "event list \<Rightarrow> stmt list" where
  "statements [] = []"
| "statements (Issued q _ # evs) = q # statements evs"
| "statements (_ # evs) = statements evs"

fun sleeps :: "event list \<Rightarrow> int list" where
  "sleeps [] = []"
| "sleeps (Slept d # evs) = d # sleeps evs"
| "sleeps (_ # evs) = sleeps evs"

fun reads :: "event list \<Rightarrow> nat list" where
  "reads [] = []"
| "reads (RandRead n # evs) = n # reads evs"
| "reads (_ # evs) = reads evs"

text \<open>
  An operation that takes the world from \<open>w\<close> to \<open>w'\<close> does not retry when it issues
  no statement twice, reads the random source at most once and never sleeps.
\<close>

definition one_shot :: "world \<Rightarrow> world \<Rightarrow> bool" where
  "one_shot w w' \<longleftrightarrow>
     (\<exists>evs. trace w' = trace w @ evs \<and> distinct (statements evs) \<and> sleeps evs = []
        \<and> length (reads evs) \<le> 1)
     \<and> clock w' = clock w"

subsection \<open>Example databases\<close>

definition noon :: int where
  "noon = 1700000000 * Second"

definition alice :: User where
  "alice = \<lparr>User.ID = 0, Email = ''alice@example.com'', FirstName = ''Alice'',
     LastName = ''Liddell'', Password = ''correct horse'', CreatedAt = noon,
     UpdatedAt = noon, Token = zeroToken\<rparr>"

definition alice_row :: users_row where
  "alice_row = \<lparr>users_id = 1, users_email = ''alice@example.com'',
     users_first_name = ''Alice'', users_last_name = ''Liddell'',
     users_password = ''$2a$12$'', users_created_at = noon - Second,
     users_updated_at = noon - Second\<rparr>"

definition letters :: string where
  \<comment> \<open>26 symbols of the base32 alphabet\<close>
  "letters = ''ABCDEFGHIJKLMNOPQRSTUVWXYZ''"

definition session :: Token where
  \<comment> \<open>a token for user 1 that expires at \<open>noon\<close>, with timestamps of the caller's own\<close>
  "session = \<lparr>Token.ID = 0, UserID = 1, Email = ''alice@example.com'', Token = letters,
     TokenHash = [], CreatedAt = 5, UpdatedAt = 6, Expiry = noon\<rparr>"

definition session_row :: tokens_row where
  "session_row = \<lparr>tokens_id = 1, tokens_user_id = 1, tokens_email = ''alice@example.com'',
     tokens_token = letters, tokens_token_hash = [], tokens_created_at = noon - Second,
     tokens_updated_at = noon - Second, tokens_expiry = noon\<rparr>"

definition empty_db :: world where
  \<comment> \<open>the tables of the spec, empty, at \<open>noon\<close>, on a connection that works\<close>
  "empty_db = \<lparr>clock = noon, users = [], users_serial = 1, tokens = [], tokens_serial = 1,
     token_column = ''token'', faults = [], entropy = [], trace = []\<rparr>"

definition spec_db :: world where
  \<comment> \<open>the tables of the spec with one user and her token, which expires this instant\<close>
  "spec_db = empty_db\<lparr>users := [alice_row], users_serial := 2,
     tokens := [session_row], tokens_serial := 2\<rparr>"

definition plainText_db :: world where
  \<comment> \<open>the same rows in a \<^verbatim>\<open>tokens\<close> table whose token column is called \<^verbatim>\<open>plainText\<close>\<close>
  "plainText_db = spec_db\<lparr>token_column := ''plainText''\<rparr>"

definition flaky_db :: world where
  \<comment> \<open>the empty tables on a connection that fails the next statement\<close>
  "flaky_db = empty_db\<lparr>faults := [Some (DriverError 1)]\<rparr>"

definition down_db :: world where
  \<comment> \<open>the empty tables on a connection that fails the next two statements\<close>
  "down_db = empty_db\<lparr>faults := [Some (DriverError 1), Some (DriverError 2)]\<rparr>"

definition users_db :: world where
  \<comment> \<open>the tables of the spec with one user and no token\<close>
  "users_db = empty_db\<lparr>users := [alice_row], users_serial := 2\<rparr>"

definition lost_db :: world where
  \<comment> \<open>the same table on a connection that fails the next statement\<close>
  "lost_db = users_db\<lparr>faults := [Some (DriverError 1)]\<rparr>"

definition spaced_token :: string where
  \<comment> \<open>26 bytes, one of them a space\<close>
  "spaced_token = ''ABCDEFGHIJKLM NOPQRSTUVWXY''"

definition sixteen :: "byte list" where
  "sixteen = [0, 1, 2, 3, 4, 5, 6, 7, 8, 9, 10, 11, 12, 13, 14, 15]"

definition stranger :: string where
  \<comment> \<open>26 symbols of the base32 alphabet that no example table holds\<close>
  "stranger = ''ZYXWVUTSRQPONMLKJIHGFEDCBA''"

definition odd_token :: string where
  \<comment> \<open>26 bytes, none of them a symbol of the base32 alphabet\<close>
  "odd_token = ''abcdefghijklmnopqrstuvwx!?''"

text \<open>
  Stand-ins for bcrypt in the examples: the hash of a password is the password after
  a prefix of seven bytes.
\<close>

definition toy_hash :: "byte list \<Rightarrow> nat \<Rightarrow> bcrypt_error + byte list" where
  "toy_hash password cost =
     (if 72 < length password then Inl ErrPasswordTooLong
      else Inr (bytes ''$2a$12$'' @ password))"

definition toy_compare :: "byte list \<Rightarrow> byte list \<Rightarrow> bcrypt_error option" where
  "toy_compare hashedPassword password =
     (if length hashedPassword < 7 then Some ErrHashTooShort
      else if drop 7 hashedPassword = password then None
      else Some ErrMismatchedHashAndPassword)"

definition bob :: User where
  "bob = alice\<lparr>Password := ''$2a$12$secret''\<rparr>"

definition mallory :: User where
  \<comment> \<open>a user record whose stored hash is cut short\<close>
  "mallory = alice\<lparr>Password := ''$2a''\<rparr>"

definition day_token :: Token where
  \<comment> \<open>what \<^verbatim>\<open>GenerateToken(1, 24 * time.Hour)\<close> returns at \<open>noon\<close> on the random bytes \<open>sixteen\<close>\<close>
  "day_token = zeroToken\<lparr>UserID := 1, Expiry := noon + Second * 86400,
     Token.Token := ''AAAQEAYEAUDAOCAJBIFQYDIOB4'', TokenHash := bytes32 0\<rparr>"

section \<open>Properties\<close>

subsection \<open>The calls into the database\<close>

lemma dbTimeout_pos: "0 < dbTimeout"
  by (simp add: dbTimeout_def Second_def)

lemma undefined_column_cong:
  "token_column w' = token_column w \<Longrightarrow> undefined_column w' q = undefined_column w q"
  by (cases "relation_of q") (simp_all add: undefined_column_def columns_def)

lemma issue_eq:
  "issue ctx q w =
     (if ctx \<le> clock w then (Some DeadlineExceeded, w\<lparr>trace := trace w @ [Issued q (clock w)]\<rparr>)
      else (case faults w of
          Some e # fs \<Rightarrow> (Some e, w\<lparr>trace := trace w @ [Issued q (clock w)], faults := fs\<rparr>)
        | _ \<Rightarrow> (map_option UndefinedColumn (undefined_column w q),
                w\<lparr>trace := trace w @ [Issued q (clock w)], faults := tl (faults w)\<rparr>)))"
proof -
  have u: "undefined_column (w\<lparr>trace := trace w @ [Issued q (clock w)], faults := fs\<rparr>) q
      = undefined_column w q" for fs
    by (rule undefined_column_cong) simp
  show ?thesis
    by (simp add: issue_def Let_def u split: list.splits option.splits)
qed

lemma issue_trace: "trace (snd (issue ctx q w)) = trace w @ [Issued q (clock w)]"
  by (simp add: issue_eq split: list.splits option.splits)

lemma issue_keeps:
  "clock (snd (issue ctx q w)) = clock w"
  "users (snd (issue ctx q w)) = users w"
  "tokens (snd (issue ctx q w)) = tokens w"
  "users_serial (snd (issue ctx q w)) = users_serial w"
  "tokens_serial (snd (issue ctx q w)) = tokens_serial w"
  "token_column (snd (issue ctx q w)) = token_column w"
  "entropy (snd (issue ctx q w)) = entropy w"
  by (simp_all add: issue_eq split: list.splits option.splits)

lemma users_columns_defined:
  "undefined_column w select_users = None"
  "undefined_column w (select_user uid) = None"
  "undefined_column w (select_user_by_email email) = None"
  "undefined_column w (delete_user uid) = None"
  "undefined_column w (update_user user) = None"
  "undefined_column w (update_password password uid) = None"
  "undefined_column w (insert_user user hashedPassword) = None"
  by (simp_all add: undefined_column_def columns_def users_columns_def select_users_def
      select_user_def select_user_by_email_def delete_user_def update_user_def
      update_password_def insert_user_def)

lemma plainText_defined:
  "undefined_column w (delete_token p) =
     (if token_column w = ''plainText'' then None else Some ''plainText'')"
  "undefined_column w (select_token p) =
     (if token_column w = ''plainText'' then None else Some ''plainText'')"
  by (simp_all add: undefined_column_def columns_def select_token_def delete_token_def)

subsection \<open>Token Issuer\<close>

lemma symbol_in_alphabet: "symbol b \<in> set encodeStd"
proof -
  have "b AND 0x1F \<le> 0x1F" by (rule word_and_le1)
  then have "unat (b AND 0x1F) \<le> unat (0x1F :: byte)" by (simp only: word_le_nat_alt)
  then have "unat (b AND 0x1F) < length encodeStd" by (simp add: encodeStd_def)
  then show ?thesis unfolding symbol_def by (rule nth_mem)
qed

lemma EncodeToString_alphabet: "set (EncodeToString src) \<subseteq> set encodeStd"
  by (induction src rule: EncodeToString.induct) (simp_all add: symbol_in_alphabet)

lemma length_EncodeToString: "length (EncodeToString src) = (length src * 8 + 4) div 5"
  by (induction src rule: EncodeToString.induct) simp_all

lemma length_bytes32: "length (bytes32 h) = 32"
  by (simp add: bytes32_def)

lemma rand_Read_Inr:
  "rand_Read n w = (Inr bs, w') \<Longrightarrow> bs = take n (entropy w) \<and> length bs = n"
  by (auto simp: rand_Read_def Let_def split: if_splits)

lemma GenerateToken_succeeds_iff:
  "(\<exists>t. fst (GenerateToken Sum256 userID ttl w) = Inr t) \<longleftrightarrow> 16 \<le> length (entropy w)"
  by (auto simp: GenerateToken_def rand_Read_def Let_def)

text \<open>
  C4. Whenever \<^verbatim>\<open>GenerateToken(userID, ttl)\<close> returns a token, its \<^verbatim>\<open>Token\<close> field is
  the unpadded base32 encoding of the 16 bytes read from the random source: 26
  symbols, all of the base32 alphabet; its \<^verbatim>\<open>TokenHash\<close> is the 32 bytes of the SHA-256
  digest of exactly that string; its \<^verbatim>\<open>Expiry\<close> is the current time plus \<open>ttl\<close>; and
  it carries the given user id.
\<close>

theorem GenerateToken_token:
  assumes "GenerateToken Sum256 userID ttl w = (Inr t, w')"
  shows "length (Token.Token t) = 26
       \<and> set (Token.Token t) \<subseteq> set encodeStd
       \<and> Token.Token t = EncodeToString (take 16 (entropy w))
       \<and> length (take 16 (entropy w)) = 16
       \<and> TokenHash t = bytes32 (Sum256 (bytes (Token.Token t)))
       \<and> length (TokenHash t) = 32
       \<and> Expiry t = clock w + ttl
       \<and> UserID t = userID"
proof -
  from assms obtain bs w1 where r: "rand_Read 16 w = (Inr bs, w1)"
    and t: "t = zeroToken\<lparr>UserID := userID, Expiry := clock w + ttl,
                Token.Token := EncodeToString bs,
                TokenHash := bytes32 (Sum256 (bytes (EncodeToString bs)))\<rparr>"
    by (auto simp: GenerateToken_def Let_def split: prod.splits sum.splits)
  from rand_Read_Inr [OF r] have bs: "bs = take 16 (entropy w)" "length bs = 16" by auto
  have "length (EncodeToString bs) = 26" by (simp add: length_EncodeToString bs(2))
  with t bs show ?thesis
    by (simp add: EncodeToString_alphabet length_bytes32)
qed

theorem GenerateToken_token_witness:
  "fst (GenerateToken (\<lambda>_. 0) 1 (Second * 86400) (empty_db\<lparr>entropy := sixteen\<rparr>)) = Inr day_token
   \<and> length (Token.Token day_token) = 26
   \<and> set (Token.Token day_token) \<subseteq> set encodeStd
   \<and> TokenHash day_token = bytes32 0
   \<and> Expiry day_token = noon + Second * 86400"
proof -
  let ?g = "GenerateToken (\<lambda>_. 0) 1 (Second * 86400) (empty_db\<lparr>entropy := sixteen\<rparr>)"
  have f: "fst ?g = Inr day_token"
    by (simp add: GenerateToken_def rand_Read_def empty_db_def sixteen_def day_token_def
        Let_def symbol_def encodeStd_def bytes_def)
  then have h: "?g = (Inr day_token, snd ?g)"
    by (simp add: prod_eq_iff)
  have c: "clock (empty_db\<lparr>entropy := sixteen\<rparr>) = noon"
    by (simp add: empty_db_def)
  from GenerateToken_token [OF h]
  have "length (Token.Token day_token) = 26" "set (Token.Token day_token) \<subseteq> set encodeStd"
    "TokenHash day_token = bytes32 0" "Expiry day_token = noon + Second * 86400"
    unfolding c by blast+
  with f show ?thesis by blast
qed

subsection \<open>Credential Store\<close>

text \<open>
  C9. \<^verbatim>\<open>PasswordMatches\<close> returns \<^verbatim>\<open>true\<close> and no error when bcrypt accepts the
  candidate, \<^verbatim>\<open>false\<close> and no error when bcrypt reports a mismatch, and \<^verbatim>\<open>false\<close>
  with the error itself for every other failure of the comparison (a hash too short,
  a bad prefix, ...).
\<close>

theorem PasswordMatches_outcomes:
  "(cmp (bytes (User.Password u)) (bytes password) = None
      \<longrightarrow> PasswordMatches cmp u password = (True, None))
   \<and> (cmp (bytes (User.Password u)) (bytes password) = Some ErrMismatchedHashAndPassword
      \<longrightarrow> PasswordMatches cmp u password = (False, None))
   \<and> (\<forall>e. cmp (bytes (User.Password u)) (bytes password) = Some e
          \<and> e \<noteq> ErrMismatchedHashAndPassword
      \<longrightarrow> PasswordMatches cmp u password = (False, Some (Bcrypt e)))"
  by (simp add: PasswordMatches_def)

theorem PasswordMatches_outcomes_witness:
  "toy_compare (bytes (User.Password bob)) (bytes ''secret'') = None
   \<and> PasswordMatches toy_compare bob ''secret'' = (True, None)
   \<and> toy_compare (bytes (User.Password bob)) (bytes ''guess'') = Some ErrMismatchedHashAndPassword
   \<and> PasswordMatches toy_compare bob ''guess'' = (False, None)
   \<and> toy_compare (bytes (User.Password mallory)) (bytes ''secret'') = Some ErrHashTooShort
   \<and> PasswordMatches toy_compare mallory ''secret'' = (False, Some (Bcrypt ErrHashTooShort))"
proof -
  have a: "toy_compare (bytes (User.Password bob)) (bytes ''secret'') = None"
    by (simp add: toy_compare_def bob_def alice_def bytes_def)
  have b: "toy_compare (bytes (User.Password bob)) (bytes ''guess'') = Some ErrMismatchedHashAndPassword"
    by (simp add: toy_compare_def bob_def alice_def bytes_def)
  have c: "toy_compare (bytes (User.Password mallory)) (bytes ''secret'') = Some ErrHashTooShort"
    by (simp add: toy_compare_def mallory_def alice_def bytes_def)
  from a b c
    PasswordMatches_outcomes [of toy_compare bob "''secret''"]
    PasswordMatches_outcomes [of toy_compare bob "''guess''"]
    PasswordMatches_outcomes [of toy_compare mallory "''secret''"]
  show ?thesis by simp
qed

lemma referenced_user_cong:
  "users w' = users w \<Longrightarrow> tokens w' = tokens w \<Longrightarrow> referenced_user uid w' = referenced_user uid w"
  by (simp add: referenced_user_def)

lemma Delete_eq:
  "Delete uid w =
     (case faults w of
        Some e # fs \<Rightarrow>
          (Some (Db e), w\<lparr>trace := trace w @ [Issued (delete_user uid) (clock w)], faults := fs\<rparr>)
      | _ \<Rightarrow>
          (if referenced_user uid w
           then (Some (Db (ForeignKeyViolation ''user_id'')),
                 w\<lparr>trace := trace w @ [Issued (delete_user uid) (clock w)],
                   faults := tl (faults w)\<rparr>)
           else (None,
                 w\<lparr>trace := trace w @ [Issued (delete_user uid) (clock w)],
                   faults := tl (faults w),
                   users := filter (\<lambda>r. users_id r \<noteq> uid) (users w)\<rparr>)))"
proof -
  have r: "referenced_user uid (w\<lparr>trace := t, faults := fs\<rparr>) = referenced_user uid w" for t fs
    by (rule referenced_user_cong) simp_all
  show ?thesis
    using dbTimeout_pos
    by (simp add: Delete_def ExecContext_def issue_eq users_columns_defined Let_def
        WithTimeout_def delete_users_rows_def r split: list.splits option.splits)
qed

lemma spec_db_simps:
  "users spec_db = [alice_row]" "faults spec_db = []" "tokens spec_db = [session_row]"
  "token_column spec_db = ''token''" "clock spec_db = noon"
  by (simp_all add: spec_db_def empty_db_def)

lemma users_db_simps:
  "users users_db = [alice_row]" "faults users_db = []" "tokens users_db = []"
  by (simp_all add: users_db_def empty_db_def)

lemma filter_none: "\<forall>r \<in> set rs. users_id r \<noteq> uid \<Longrightarrow> filter (\<lambda>r. users_id r \<noteq> uid) rs = rs"
  by (induction rs) simp_all

text \<open>
  C3, as the code has it. \<^verbatim>\<open>Delete(id)\<close> removes every row with that id. It
  returns the error of its statement when the connection fails it, or when a row of
  \<^verbatim>\<open>tokens\<close> still references the user (the foreign key of the spec's schema); then
  nothing is removed. In every other case it returns no error. So when no row has
  the id, the statement succeeds all the same: the table is unchanged and no error is
  returned (the source never looks at the count of rows affected).
\<close>

theorem Delete_removes:
  "(fst (Delete uid w) = None
      \<longleftrightarrow> (\<nexists>e fs. faults w = Some e # fs) \<and> \<not> referenced_user uid w)
   \<and> (fst (Delete uid w) = None
        \<longrightarrow> users (snd (Delete uid w)) = filter (\<lambda>r. users_id r \<noteq> uid) (users w))
   \<and> (fst (Delete uid w) \<noteq> None \<longrightarrow> users (snd (Delete uid w)) = users w)
   \<and> ((\<forall>r \<in> set (users w). users_id r \<noteq> uid) \<and> (\<nexists>e fs. faults w = Some e # fs)
        \<longrightarrow> fst (Delete uid w) = None \<and> users (snd (Delete uid w)) = users w)
   \<and> (\<forall>e fs. faults w = Some e # fs \<longrightarrow> fst (Delete uid w) = Some (Db e))
   \<and> ((\<nexists>e fs. faults w = Some e # fs) \<and> referenced_user uid w
        \<longrightarrow> fst (Delete uid w) = Some (Db (ForeignKeyViolation ''user_id'')))
   \<and> tokens (snd (Delete uid w)) = tokens w"
proof -
  have n: "\<not> referenced_user uid w" if "\<forall>r \<in> set (users w). users_id r \<noteq> uid"
    using that by (auto simp: referenced_user_def)
  have 1: "fst (Delete uid w) = None
      \<longleftrightarrow> (\<nexists>e fs. faults w = Some e # fs) \<and> \<not> referenced_user uid w"
    by (auto simp: Delete_eq split: list.splits option.splits)
  have 2: "fst (Delete uid w) = None
        \<longrightarrow> users (snd (Delete uid w)) = filter (\<lambda>r. users_id r \<noteq> uid) (users w)"
    by (auto simp: Delete_eq split: list.splits option.splits if_splits)
  have 3: "fst (Delete uid w) \<noteq> None \<longrightarrow> users (snd (Delete uid w)) = users w"
    by (auto simp: Delete_eq split: list.splits option.splits if_splits)
  have 4: "(\<forall>r \<in> set (users w). users_id r \<noteq> uid) \<and> (\<nexists>e fs. faults w = Some e # fs)
        \<longrightarrow> fst (Delete uid w) = None \<and> users (snd (Delete uid w)) = users w"
    using n 1 2 filter_none [of "users w" uid] by auto
  have 5: "\<forall>e fs. faults w = Some e # fs \<longrightarrow> fst (Delete uid w) = Some (Db e)"
    by (simp add: Delete_eq)
  have 6: "(\<nexists>e fs. faults w = Some e # fs) \<and> referenced_user uid w
        \<longrightarrow> fst (Delete uid w) = Some (Db (ForeignKeyViolation ''user_id''))"
    by (auto simp: Delete_eq split: list.splits option.splits)
  have 7: "tokens (snd (Delete uid w)) = tokens w"
    by (simp add: Delete_eq split: list.splits option.splits)
  from 1 2 3 4 5 6 7 show ?thesis by (intro conjI)
qed

theorem Delete_removes_witness:
  "fst (Delete 1 users_db) = None \<and> users (snd (Delete 1 users_db)) = []
   \<and> fst (Delete 5 spec_db) = None \<and> users (snd (Delete 5 spec_db)) = users spec_db
   \<and> fst (Delete 1 spec_db) = Some (Db (ForeignKeyViolation ''user_id''))
   \<and> users (snd (Delete 1 spec_db)) = users spec_db
   \<and> fst (Delete 1 (users_db\<lparr>faults := [Some (DriverError 7)]\<rparr>)) = Some (Db (DriverError 7))
   \<and> users (snd (Delete 1 (users_db\<lparr>faults := [Some (DriverError 7)]\<rparr>))) = users users_db"
proof -
  have a: "\<not> referenced_user 1 users_db" "\<not> referenced_user 5 spec_db" "referenced_user 1 spec_db"
    by (simp_all add: referenced_user_def users_db_simps spec_db_simps alice_row_def session_row_def)
  have 1: "fst (Delete 1 users_db) = None"
    using Delete_removes [of 1 users_db] a(1) users_db_simps(2) by simp
  then have 2: "users (snd (Delete 1 users_db)) = []"
    using Delete_removes [of 1 users_db] by (simp add: users_db_simps alice_row_def)
  have 3: "fst (Delete 5 spec_db) = None"
    using Delete_removes [of 5 spec_db] a(2) spec_db_simps(2) by simp
  then have 4: "users (snd (Delete 5 spec_db)) = users spec_db"
    using Delete_removes [of 5 spec_db] by (simp add: spec_db_simps alice_row_def)
  have 5: "fst (Delete 1 spec_db) = Some (Db (ForeignKeyViolation ''user_id''))"
    using Delete_removes [of 1 spec_db] a(3) spec_db_simps(2) by simp
  then have 6: "users (snd (Delete 1 spec_db)) = users spec_db"
    using Delete_removes [of 1 spec_db] by simp
  have 7: "fst (Delete 1 (users_db\<lparr>faults := [Some (DriverError 7)]\<rparr>)) = Some (Db (DriverError 7))"
    using Delete_removes [of 1 "users_db\<lparr>faults := [Some (DriverError 7)]\<rparr>"] by simp
  then have 8: "users (snd (Delete 1 (users_db\<lparr>faults := [Some (DriverError 7)]\<rparr>))) = users users_db"
    using Delete_removes [of 1 "users_db\<lparr>faults := [Some (DriverError 7)]\<rparr>"] by simp
  from 1 2 3 4 5 6 7 8 show ?thesis by (intro conjI)
qed

text \<open>
  The claim C3 as the spec states it fails: deleting the id 5 from an empty table is
  not reported as an error.
\<close>

theorem Delete_missing_id_counterexample:
  "users empty_db = [] \<and> faults empty_db = [] \<and> fst (Delete 5 empty_db) = None"
  by (simp add: Delete_eq referenced_user_def) (simp add: empty_db_def)

subsection \<open>The retry loop of \<^verbatim>\<open>Insert\<close>\<close>

lemma insert_user_defined: "undefined_column w (insert_user u hp) = None"
  by (rule users_columns_defined)

lemma insert_users_row_keeps:
  "trace (snd (insert_users_row u hp w)) = trace w"
  "clock (snd (insert_users_row u hp w)) = clock w"
  by (simp_all add: insert_users_row_def Let_def)

lemma attempt_trace:
  "trace (snd (QueryRowContext ctx (insert_user u hp) (insert_users_row u hp) w))
     = trace w @ [Issued (insert_user u hp) (clock w)]"
  by (simp add: QueryRowContext_def issue_eq insert_user_defined insert_users_row_keeps
      split: list.splits option.splits)

lemma attempt_clock:
  "clock (snd (QueryRowContext ctx (insert_user u hp) (insert_users_row u hp) w)) = clock w"
  by (simp add: QueryRowContext_def issue_eq insert_user_defined insert_users_row_keeps
      split: list.splits option.splits)

lemma attempt_deadline:
  "ctx \<le> clock w \<Longrightarrow>
   fst (QueryRowContext ctx (insert_user u hp) (insert_users_row u hp) w) = Inl DeadlineExceeded"
  by (simp add: QueryRowContext_def issue_eq)

lemma attempt_fault:
  "clock w < ctx \<Longrightarrow> faults w = Some e # fs \<Longrightarrow>
   QueryRowContext ctx (insert_user u hp) (insert_users_row u hp) w
     = (Inl e, w\<lparr>trace := trace w @ [Issued (insert_user u hp) (clock w)], faults := fs\<rparr>)"
  by (simp add: QueryRowContext_def issue_eq)

lemma Sleep_simps:
  "clock (Sleep d w) = clock w + d" "trace (Sleep d w) = trace w @ [Slept d]"
  "faults (Sleep d w) = faults w" "users (Sleep d w) = users w"
  by (simp_all add: Sleep_def)

lemma Insert_loop_unfold:
  "Insert_loop ctx q u hp 0 None w =
     (case QueryRowContext ctx q (insert_users_row u hp) w of
        (Inr newID, w1) \<Rightarrow> (Inr 0, w1)
      | (Inl e1, w1) \<Rightarrow>
         (case QueryRowContext ctx q (insert_users_row u hp) (Sleep (Second * 2) w1) of
            (Inr newID, w2) \<Rightarrow> (Inr 0, w2)
          | (Inl e2, w2) \<Rightarrow>
             (case QueryRowContext ctx q (insert_users_row u hp) (Sleep (Second * 2) w2) of
                (Inr newID, w3) \<Rightarrow> (Inr 0, w3)
              | (Inl e3, w3) \<Rightarrow> (Inl (FailedToInsertUserAfter 3 (Some e3)), w3))))"
  by (simp add: Insert_loop.simps [of _ _ _ _ 0] Insert_loop.simps [of _ _ _ _ "Suc 0"]
      Insert_loop.simps [of _ _ _ _ "Suc (Suc 0)"] Insert_loop.simps [of _ _ _ _ "Suc (Suc (Suc 0))"]
      retryCount_def split: prod.splits sum.splits)

lemma Insert_eq:
  "Insert G u w =
     (case G (bytes (User.Password u)) 12 of
        Inl err \<Rightarrow> (Inl (Bcrypt err), w)
      | Inr hp \<Rightarrow> Insert_loop (clock w + dbTimeout) (insert_user u hp) u hp 0 None w)"
  by (simp add: Insert_def Let_def WithTimeout_def split: sum.splits)

lemma new_events_append: "trace w' = trace w @ evs \<Longrightarrow> new_events w w' = evs"
  by (simp add: new_events_def)

lemma Insert_failure:
  assumes G: "G (bytes (User.Password u)) 12 = Inr hp"
    and f: "fst (Insert G u w) = Inl err"
  shows "err = FailedToInsertUserAfter 3 (Some DeadlineExceeded)"
    and "new_events w (snd (Insert G u w)) =
      [Issued (insert_user u hp) (clock w), Slept (Second * 2),
       Issued (insert_user u hp) (clock w + Second * 2), Slept (Second * 2),
       Issued (insert_user u hp) (clock w + Second * 4)]"
    and "clock (snd (Insert G u w)) = clock w + Second * 4"
proof -
  let ?ctx = "clock w + dbTimeout"
  let ?q = "insert_user u hp"
  let ?attempt = "QueryRowContext ?ctx ?q (insert_users_row u hp)"
  obtain r1 w1 where a1: "?attempt w = (r1, w1)" by (cases "?attempt w")
  obtain r2 w2 where a2: "?attempt (Sleep (Second * 2) w1) = (r2, w2)"
    by (cases "?attempt (Sleep (Second * 2) w1)")
  obtain r3 w3 where a3: "?attempt (Sleep (Second * 2) w2) = (r3, w3)"
    by (cases "?attempt (Sleep (Second * 2) w2)")
  have t1: "trace w1 = trace w @ [Issued ?q (clock w)]" and c1: "clock w1 = clock w"
    using attempt_trace [of ?ctx u hp w] attempt_clock [of ?ctx u hp w] by (simp_all add: a1)
  have t2: "trace w2 = trace w1 @ [Slept (Second * 2), Issued ?q (clock w + Second * 2)]"
    and c2: "clock w2 = clock w + Second * 2"
    using attempt_trace [of ?ctx u hp "Sleep (Second * 2) w1"]
      attempt_clock [of ?ctx u hp "Sleep (Second * 2) w1"]
    by (simp_all add: a2 Sleep_simps c1)
  have t3: "trace w3 = trace w2 @ [Slept (Second * 2), Issued ?q (clock w + Second * 4)]"
    and c3: "clock w3 = clock w + Second * 4"
    using attempt_trace [of ?ctx u hp "Sleep (Second * 2) w2"]
      attempt_clock [of ?ctx u hp "Sleep (Second * 2) w2"]
    by (simp_all add: a3 Sleep_simps c2)
  have "?ctx \<le> clock (Sleep (Second * 2) w2)"
    by (simp add: Sleep_simps c2 dbTimeout_def Second_def)
  from attempt_deadline [OF this, of u hp] have r3: "r3 = Inl DeadlineExceeded"
    by (simp add: a3)
  have e: "Insert G u w =
     (case r1 of Inr newID \<Rightarrow> (Inr 0, w1)
      | Inl e1 \<Rightarrow> (case r2 of Inr newID \<Rightarrow> (Inr 0, w2)
          | Inl e2 \<Rightarrow> (Inl (FailedToInsertUserAfter 3 (Some DeadlineExceeded)), w3)))"
    by (simp add: Insert_eq G Insert_loop_unfold a1 a2 a3 r3 split: sum.splits)
  from f have r: "\<exists>e1 e2. r1 = Inl e1 \<and> r2 = Inl e2"
    by (simp add: e split: sum.splits)
  then have s: "Insert G u w = (Inl (FailedToInsertUserAfter 3 (Some DeadlineExceeded)), w3)"
    by (auto simp: e)
  with f show "err = FailedToInsertUserAfter 3 (Some DeadlineExceeded)" by simp
  have "trace w3 = trace w @ [Issued ?q (clock w), Slept (Second * 2),
       Issued ?q (clock w + Second * 2), Slept (Second * 2),
       Issued ?q (clock w + Second * 4)]"
    by (simp add: t1 t2 t3)
  then show "new_events w (snd (Insert G u w)) =
      [Issued ?q (clock w), Slept (Second * 2),
       Issued ?q (clock w + Second * 2), Slept (Second * 2),
       Issued ?q (clock w + Second * 4)]"
    by (simp add: s new_events_append)
  show "clock (snd (Insert G u w)) = clock w + Second * 4"
    by (simp add: s c3)
qed

lemma Insert_two_faults:
  assumes G: "G (bytes (User.Password u)) 12 = Inr hp"
    and f: "faults w = Some e1 # Some e2 # fs"
  shows "fst (Insert G u w) = Inl (FailedToInsertUserAfter 3 (Some DeadlineExceeded))"
proof -
  let ?ctx = "clock w + dbTimeout"
  let ?w1 = "w\<lparr>trace := trace w @ [Issued (insert_user u hp) (clock w)], faults := Some e2 # fs\<rparr>"
  let ?w2 = "(Sleep (Second * 2) ?w1)\<lparr>trace := trace (Sleep (Second * 2) ?w1) @
       [Issued (insert_user u hp) (clock (Sleep (Second * 2) ?w1))], faults := fs\<rparr>"
  have a1: "QueryRowContext ?ctx (insert_user u hp) (insert_users_row u hp) w = (Inl e1, ?w1)"
    using dbTimeout_pos by (simp add: attempt_fault f)
  have a2: "QueryRowContext ?ctx (insert_user u hp) (insert_users_row u hp) (Sleep (Second * 2) ?w1)
      = (Inl e2, ?w2)"
    by (rule attempt_fault) (simp_all add: Sleep_simps dbTimeout_def Second_def)
  have "?ctx \<le> clock (Sleep (Second * 2) ?w2)"
    by (simp add: Sleep_simps dbTimeout_def Second_def)
  from attempt_deadline [OF this, of u hp]
  obtain w3 where a3: "QueryRowContext ?ctx (insert_user u hp) (insert_users_row u hp)
       (Sleep (Second * 2) ?w2) = (Inl DeadlineExceeded, w3)"
    by (cases "QueryRowContext ?ctx (insert_user u hp) (insert_users_row u hp)
       (Sleep (Second * 2) ?w2)") simp
  show ?thesis
    by (simp add: Insert_eq G Insert_loop_unfold a1 a2 a3)
qed

lemma Insert_zero:
  "fst (Insert G u w) = Inr n \<Longrightarrow> n = 0"
  by (auto simp: Insert_eq Insert_loop_unfold split: prod.splits sum.splits)

lemma Insert_retry_succeeds:
  assumes G: "G (bytes (User.Password u)) 12 = Inr hp"
    and f: "faults w = [Some e1]"
    and n: "\<forall>r \<in> set (users w). users_email r \<noteq> User.Email u"
  shows "fst (Insert G u w) = Inr 0"
    and "new_events w (snd (Insert G u w)) =
      [Issued (insert_user u hp) (clock w), Slept (Second * 2),
       Issued (insert_user u hp) (clock w + Second * 2)]"
    and "map users_id (users (snd (Insert G u w))) = map users_id (users w) @ [users_serial w]"
proof -
  let ?ctx = "clock w + dbTimeout"
  let ?w1 = "w\<lparr>trace := trace w @ [Issued (insert_user u hp) (clock w)], faults := []\<rparr>"
  have a1: "QueryRowContext ?ctx (insert_user u hp) (insert_users_row u hp) w = (Inl e1, ?w1)"
    using dbTimeout_pos by (simp add: attempt_fault f)
  obtain r2 w2 where a2: "QueryRowContext ?ctx (insert_user u hp) (insert_users_row u hp)
      (Sleep (Second * 2) ?w1) = (r2, w2)"
    by (cases "QueryRowContext ?ctx (insert_user u hp) (insert_users_row u hp)
      (Sleep (Second * 2) ?w1)")
  from a2 n have r2: "r2 = Inr (users_serial w)"
    and u2: "map users_id (users w2) = map users_id (users w) @ [users_serial w]"
    and t2: "trace w2 = trace w @ [Issued (insert_user u hp) (clock w), Slept (Second * 2),
       Issued (insert_user u hp) (clock w + Second * 2)]"
    by (auto simp: QueryRowContext_def issue_eq insert_user_defined insert_users_row_def
        Sleep_def Let_def dbTimeout_def Second_def)
  have e: "Insert G u w = (Inr 0, w2)"
    by (simp add: Insert_eq G Insert_loop_unfold a1 a2 r2)
  show "fst (Insert G u w) = Inr 0" by (simp add: e)
  show "new_events w (snd (Insert G u w)) =
      [Issued (insert_user u hp) (clock w), Slept (Second * 2),
       Issued (insert_user u hp) (clock w + Second * 2)]"
    by (simp add: e t2 new_events_append)
  show "map users_id (users (snd (Insert G u w))) = map users_id (users w) @ [users_serial w]"
    by (simp add: e u2)
qed

lemma Insert_first_try:
  assumes G: "G (bytes (User.Password u)) 12 = Inr hp"
    and f: "\<nexists>e fs. faults w = Some e # fs"
    and n: "\<forall>r \<in> set (users w). users_email r \<noteq> User.Email u"
  shows "fst (Insert G u w) = Inr 0"
    and "map users_id (users (snd (Insert G u w))) = map users_id (users w) @ [users_serial w]"
proof -
  let ?ctx = "clock w + dbTimeout"
  obtain r1 w1 where a1: "QueryRowContext ?ctx (insert_user u hp) (insert_users_row u hp) w = (r1, w1)"
    by (cases "QueryRowContext ?ctx (insert_user u hp) (insert_users_row u hp) w")
  from a1 n f have r1: "r1 = Inr (users_serial w)"
    and u1: "map users_id (users w1) = map users_id (users w) @ [users_serial w]"
    using dbTimeout_pos
    by (auto simp: QueryRowContext_def issue_eq insert_user_defined insert_users_row_def
        Let_def split: list.splits option.splits)
  have e: "Insert G u w = (Inr 0, w1)"
    by (simp add: Insert_eq G Insert_loop_unfold a1 r1)
  show "fst (Insert G u w) = Inr 0" by (simp add: e)
  show "map users_id (users (snd (Insert G u w))) = map users_id (users w) @ [users_serial w]"
    by (simp add: e u1)
qed

lemma toy_hash_alice: "toy_hash (bytes (User.Password alice)) 12 = Inr (bytes ''$2a$12$correct horse'')"
  by (simp add: toy_hash_def alice_def bytes_def)

text \<open>
  C2 on the code. \<^verbatim>\<open>Insert\<close> hashes the password with bcrypt at cost 12 and then
  inserts the row, as the claim says, and the statement hands back the generated id
  (\<^verbatim>\<open>returning id\<close>, scanned into \<^verbatim>\<open>newID\<close>). But the success branch ends in
  \<^verbatim>\<open>return 0, nil\<close>: inserting Alice into the empty table creates the row with id 1
  and returns 0.
\<close>

theorem Insert_returns_zero_not_id:
  "fst (Insert toy_hash alice empty_db) = Inr 0
   \<and> map users_id (users (snd (Insert toy_hash alice empty_db))) = [1]"
  using Insert_first_try [of toy_hash alice _ empty_db, OF toy_hash_alice]
  by (simp add: empty_db_def)

subsection \<open>Token Store\<close>

lemma GetByToken_eq:
  "GetByToken p w =
     (case faults w of
        Some e # fs \<Rightarrow>
          (if e = ErrNoRows then Inl (NoPlainTextFound p) else Inl (Db e),
           w\<lparr>trace := trace w @ [Issued (select_token p) (clock w)], faults := fs\<rparr>)
      | _ \<Rightarrow>
          (if token_column w \<noteq> ''plainText'' then Inl (Db (UndefinedColumn ''plainText''))
           else (case find (\<lambda>r. tokens_token r = p) (tokens w) of
               None \<Rightarrow> Inl (NoPlainTextFound p)
             | Some r \<Rightarrow> Inr (scan_token r)),
           w\<lparr>trace := trace w @ [Issued (select_token p) (clock w)], faults := tl (faults w)\<rparr>))"
  using dbTimeout_pos
  by (simp add: GetByToken_def QueryRowContext_def issue_eq Let_def WithTimeout_def first_row_def
      plainText_defined split: list.splits option.splits)

lemma GetUserByToken_eq:
  "GetUserByToken token w =
     (case faults w of
        Some e # fs \<Rightarrow>
          (if e = ErrNoRows then Inl (NoUserFoundWithToken token) else Inl (Db e),
           w\<lparr>trace := trace w @ [Issued (select_user (UserID token)) (clock w)], faults := fs\<rparr>)
      | _ \<Rightarrow>
          (case find (\<lambda>r. users_id r = UserID token) (users w) of
               None \<Rightarrow> Inl (NoUserFoundWithToken token)
             | Some r \<Rightarrow> Inr (scan_user r),
           w\<lparr>trace := trace w @ [Issued (select_user (UserID token)) (clock w)], faults := tl (faults w)\<rparr>))"
  using dbTimeout_pos
  by (simp add: GetUserByToken_def QueryRowContext_def issue_eq Let_def WithTimeout_def first_row_def
      users_columns_defined split: list.splits option.splits)

lemma GetByToken_keeps:
  "clock (snd (GetByToken p w)) = clock w"
  "users (snd (GetByToken p w)) = users w"
  "tokens (snd (GetByToken p w)) = tokens w"
  "token_column (snd (GetByToken p w)) = token_column w"
  "trace (snd (GetByToken p w)) = trace w @ [Issued (select_token p) (clock w)]"
  by (simp_all add: GetByToken_eq split: list.splits option.splits)

lemma GetUserByToken_keeps:
  "clock (snd (GetUserByToken t w)) = clock w"
  "users (snd (GetUserByToken t w)) = users w"
  "tokens (snd (GetUserByToken t w)) = tokens w"
  "token_column (snd (GetUserByToken t w)) = token_column w"
  "trace (snd (GetUserByToken t w)) = trace w @ [Issued (select_user (UserID t)) (clock w)]"
  by (simp_all add: GetUserByToken_eq split: list.splits option.splits)

lemma GetByToken_no_row:
  "\<forall>r \<in> set (tokens w). tokens_token r \<noteq> p \<Longrightarrow> \<exists>e. fst (GetByToken p w) = Inl e"
proof -
  assume "\<forall>r \<in> set (tokens w). tokens_token r \<noteq> p"
  then have "find (\<lambda>r. tokens_token r = p) (tokens w) = None"
    by (simp add: find_None_iff)
  then show ?thesis
    by (simp add: GetByToken_eq split: list.splits option.splits)
qed

lemma GetByToken_Inr:
  assumes "GetByToken p w = (Inr tm, w1)"
  shows "token_column w = ''plainText''"
    and "\<exists>r \<in> set (tokens w). tokens_token r = p \<and> tm = scan_token r"
    and "clock w1 = clock w" and "tokens w1 = tokens w" and "users w1 = users w"
proof -
  have w1: "w1 = snd (GetByToken p w)" using assms by simp
  show "clock w1 = clock w" "tokens w1 = tokens w" "users w1 = users w"
    by (simp_all add: w1 GetByToken_keeps)
  from assms show "token_column w = ''plainText''"
    by (auto simp: GetByToken_eq split: list.splits option.splits if_splits)
  from assms obtain r where "find (\<lambda>r. tokens_token r = p) (tokens w) = Some r" "tm = scan_token r"
    by (auto simp: GetByToken_eq split: list.splits option.splits if_splits)
  then show "\<exists>r \<in> set (tokens w). tokens_token r = p \<and> tm = scan_token r"
    by (auto simp: find_Some_iff)
qed

lemma DeleteToken_eq:
  "DeleteToken p w =
     (case faults w of
        Some e # fs \<Rightarrow>
          (Some (Db e), w\<lparr>trace := trace w @ [Issued (delete_token p) (clock w)], faults := fs\<rparr>)
      | _ \<Rightarrow>
          (if token_column w \<noteq> ''plainText''
           then (Some (Db (UndefinedColumn ''plainText'')),
                 w\<lparr>trace := trace w @ [Issued (delete_token p) (clock w)],
                   faults := tl (faults w)\<rparr>)
           else (None,
                 w\<lparr>trace := trace w @ [Issued (delete_token p) (clock w)],
                   faults := tl (faults w),
                   tokens := filter (\<lambda>r. tokens_token r \<noteq> p) (tokens w)\<rparr>)))"
  using dbTimeout_pos
  by (simp add: DeleteToken_def ExecContext_def issue_eq Let_def WithTimeout_def
      plainText_defined split: list.splits option.splits)

lemma DeleteToken_keeps:
  "clock (snd (DeleteToken p w)) = clock w"
  "token_column (snd (DeleteToken p w)) = token_column w"
  "trace (snd (DeleteToken p w)) = trace w @ [Issued (delete_token p) (clock w)]"
  by (simp_all add: DeleteToken_eq split: list.splits option.splits)

lemma token_undefined:
  "token_column w = ''plainText'' \<Longrightarrow> undefined_column w (insert_token t now) = Some ''token''"
  by (simp add: undefined_column_def columns_def insert_token_def)

lemma InsertToken_eq:
  "InsertToken token w =
     (case DeleteToken (Token.Token token) w of
        (Some err, w1) \<Rightarrow> (Some err, w1)
      | (None, w1) \<Rightarrow>
          (case ExecContext (clock w + dbTimeout) (insert_token token (clock w1))
                  (insert_tokens_row token) w1 of
             (Some err, w2) \<Rightarrow> (Some (Db err), w2)
           | (None, w2) \<Rightarrow> (None, w2)))"
  by (simp add: InsertToken_def Let_def WithTimeout_def
      split: prod.splits option.splits)

text \<open>
  No database lets \<^verbatim>\<open>InsertToken\<close> succeed: its \<^verbatim>\<open>DELETE\<close> needs a column
  \<^verbatim>\<open>plainText\<close> and its \<^verbatim>\<open>INSERT\<close> a column \<^verbatim>\<open>token\<close> for the same string.
\<close>

lemma InsertToken_never_succeeds: "fst (InsertToken token w) \<noteq> None"
proof (cases "DeleteToken (Token.Token token) w")
  case (Pair r w1)
  show ?thesis
  proof (cases r)
    case (Some err)
    with Pair show ?thesis by (simp add: InsertToken_eq)
  next
    case None
    with Pair have c: "token_column w = ''plainText''"
      by (auto simp: DeleteToken_eq split: list.splits option.splits if_splits)
    have "token_column w1 = token_column w"
      using DeleteToken_keeps(2) [of "Token.Token token" w] Pair by simp
    with c have "undefined_column w1 (insert_token token (clock w1)) = Some ''token''"
      by (simp add: token_undefined)
    then have "fst (ExecContext (clock w + dbTimeout) (insert_token token (clock w1))
                  (insert_tokens_row token) w1) \<noteq> None"
      by (simp add: ExecContext_def issue_eq split: list.splits option.splits)
    with Pair None show ?thesis
      by (auto simp: InsertToken_eq split: prod.splits option.splits)
  qed
qed

lemma GetByToken_needs_column:
  "token_column w \<noteq> ''plainText'' \<Longrightarrow> \<exists>e. fst (GetByToken p w) = Inl e"
  by (simp add: GetByToken_eq split: list.splits option.splits)

lemma DeleteToken_needs_column:
  "token_column w \<noteq> ''plainText'' \<Longrightarrow>
   fst (DeleteToken p w) \<noteq> None \<and> tokens (snd (DeleteToken p w)) = tokens w"
  by (simp add: DeleteToken_eq split: list.splits option.splits)

text \<open>
  On a table that does have a column \<^verbatim>\<open>plainText\<close> for the token string, and a
  connection that works, \<^verbatim>\<open>DeleteToken\<close> removes the rows of that token and a second
  call finds nothing to remove and returns no error either.
\<close>

lemma DeleteToken_with_column:
  assumes "token_column w = ''plainText''" and "faults w = []"
  shows "fst (DeleteToken p w) = None"
    and "tokens (snd (DeleteToken p w)) = filter (\<lambda>r. tokens_token r \<noteq> p) (tokens w)"
    and "fst (DeleteToken p (snd (DeleteToken p w))) = None"
    and "tokens (snd (DeleteToken p (snd (DeleteToken p w)))) = tokens (snd (DeleteToken p w))"
  using assms by (simp_all add: DeleteToken_eq)

lemma empty_db_simps:
  "users empty_db = []" "faults empty_db = []" "tokens empty_db = []"
  "token_column empty_db = ''token''" "clock empty_db = noon"
  by (simp_all add: empty_db_def)

text \<open>
  C5 on the code. On the tables of the spec, \<^verbatim>\<open>InsertToken\<close> of a token fails in its
  first step, the \<^verbatim>\<open>DELETE ... WHERE plainText = $1\<close> of \<^verbatim>\<open>DeleteToken\<close>: the table
  has no column \<^verbatim>\<open>plainText\<close>. No row is inserted, and \<^verbatim>\<open>GetByToken\<close>, whose
  \<^verbatim>\<open>SELECT\<close> names the same column, fails too instead of returning the record.
\<close>

theorem InsertToken_GetByToken_fail:
  "fst (InsertToken session empty_db) = Some (Db (UndefinedColumn ''plainText''))
   \<and> tokens (snd (InsertToken session empty_db)) = []
   \<and> fst (GetByToken (Token.Token session) (snd (InsertToken session empty_db)))
       = Inl (Db (UndefinedColumn ''plainText''))"
  by (simp add: InsertToken_eq DeleteToken_eq GetByToken_eq empty_db_simps)

text \<open>
  C7 on the code. On the tables of the spec, with the token \<open>letters\<close> stored,
  \<^verbatim>\<open>DeleteToken\<close> returns the error of its statement (no column \<^verbatim>\<open>plainText\<close>) and
  leaves the row in place; the second call returns the same error.
\<close>

theorem DeleteToken_fails:
  "tokens spec_db = [session_row] \<and> tokens_token session_row = letters
   \<and> fst (DeleteToken letters spec_db) = Some (Db (UndefinedColumn ''plainText''))
   \<and> tokens (snd (DeleteToken letters spec_db)) = [session_row]
   \<and> fst (DeleteToken letters (snd (DeleteToken letters spec_db)))
       = Some (Db (UndefinedColumn ''plainText''))"
  by (simp add: DeleteToken_eq spec_db_simps session_row_def)

subsection \<open>Request Authenticator\<close>

lemma Split_not_Nil: "Split s sep \<noteq> []"
  by (induction s) simp_all

lemma Split_no_sep: "sep \<notin> set s \<Longrightarrow> Split s sep = [s]"
  by (induction s) auto

lemma Split_append_sep:
  "sep \<notin> set a \<Longrightarrow> Split (a @ sep # b) sep = a # Split b sep"
  by (induction a) auto

lemma length_two: "length xs = 2 \<Longrightarrow> \<exists>a b. xs = [a, b]"
  by (cases xs; cases "tl xs") auto

lemma length_Split: "length (Split s sep) = Suc (length (filter (\<lambda>c. c = sep) s))"
proof (induction s)
  case Nil
  show ?case by simp
next
  case (Cons c s)
  have "Split s sep \<noteq> []" by (rule Split_not_Nil)
  then have "length (tl (Split s sep)) = length (Split s sep) - 1" by simp
  with Cons show ?case by simp
qed

lemma Split_two:
  "Split s sep = [a, b] \<longleftrightarrow> s = a @ sep # b \<and> sep \<notin> set a \<and> sep \<notin> set b"
proof
  assume r: "s = a @ sep # b \<and> sep \<notin> set a \<and> sep \<notin> set b"
  then show "Split s sep = [a, b]"
    by (simp add: Split_append_sep Split_no_sep)
next
  assume l: "Split s sep = [a, b]"
  then have "length (filter (\<lambda>c. c = sep) s) = 1"
    using length_Split [of s sep] by simp
  then have "filter (\<lambda>c. c = sep) s \<noteq> []" by auto
  then have "sep \<in> set s"
    by (auto simp: filter_empty_conv)
  then obtain a' b' where s: "s = a' @ sep # b'" and a': "sep \<notin> set a'"
    using split_list_first [of sep s] by blast
  with l have "a' # Split b' sep = [a, b]"
    by (simp add: Split_append_sep)
  then have ab: "a' = a" "Split b' sep = [b]" by simp_all
  from ab(2) have "length (filter (\<lambda>c. c = sep) b') = 0"
    using length_Split [of b' sep] by simp
  then have "sep \<notin> set b'"
    by (auto simp: filter_empty_conv)
  then have "Split b' sep = [b']" by (rule Split_no_sep)
  with ab(2) have "b' = b" by simp
  with s a' ab(1) \<open>sep \<notin> set b'\<close> show "s = a @ sep # b \<and> sep \<notin> set a \<and> sep \<notin> set b"
    by simp
qed

lemma header_parts:
  "(length (Split h CHR '' '') = 2 \<and> Split h CHR '' '' ! 0 = ''Bearer'') \<longleftrightarrow> (\<exists>t. bearer_shape h t)"
proof
  assume "length (Split h CHR '' '') = 2 \<and> Split h CHR '' '' ! 0 = ''Bearer''"
  then obtain b where "Split h CHR '' '' = [''Bearer'', b]"
    using length_two [of "Split h CHR '' ''"] by auto
  then have "h = ''Bearer'' @ CHR '' '' # b \<and> CHR '' '' \<notin> set b"
    by (simp add: Split_two)
  then have "bearer_shape h b" by (simp add: bearer_shape_def)
  then show "\<exists>t. bearer_shape h t" ..
next
  assume "\<exists>t. bearer_shape h t"
  then obtain t where "h = ''Bearer'' @ CHR '' '' # t" "CHR '' '' \<notin> set t"
    by (auto simp: bearer_shape_def)
  then have "Split h CHR '' '' = [''Bearer'', t]"
    using Split_two [of h "CHR '' ''" "''Bearer''" t] by simp
  then show "length (Split h CHR '' '') = 2 \<and> Split h CHR '' '' ! 0 = ''Bearer''" by simp
qed

lemma bearer_shape_Split:
  "bearer_shape h t \<Longrightarrow> Split h CHR '' '' = [''Bearer'', t]"
  using Split_two [of h "CHR '' ''" "''Bearer''" t] by (simp add: bearer_shape_def)

lemma bearer_shape_not_empty: "bearer_shape h t \<Longrightarrow> h \<noteq> []"
  by (auto simp: bearer_shape_def)

lemma AuthenticationToken_empty: "AuthenticationToken [] w = (Inl NoTokenProvided, w)"
  by (simp add: AuthenticationToken_def)

lemma AuthenticationToken_malformed:
  assumes "h \<noteq> []" "\<nexists>t. bearer_shape h t"
  shows "AuthenticationToken h w = (Inl InvalidTokenFormat, w)"
proof -
  from assms(2) have "length (Split h CHR '' '') \<noteq> 2 \<or> Split h CHR '' '' ! 0 \<noteq> ''Bearer''"
    using header_parts [of h] by blast
  with assms(1) show ?thesis
    by (simp add: AuthenticationToken_def Let_def)
qed

lemma AuthenticationToken_shaped:
  assumes "bearer_shape h t"
  shows "AuthenticationToken h w =
     (if length t \<noteq> 26 then (Inl InvalidTokenLength, w)
      else (case GetByToken t w of
          (Inl err, w1) \<Rightarrow> (Inl NoMatchingTokenFound, w1)
        | (Inr tokenModel, w1) \<Rightarrow>
            if Expiry tokenModel < clock w1 then (Inl TokenExpired, w1)
            else (case GetUserByToken tokenModel w1 of
                (Inl err, w2) \<Rightarrow> (Inl NoMatchingUserFound, w2)
              | (Inr user, w2) \<Rightarrow> (Inr user, w2))))"
proof -
  have s: "Split h CHR '' '' = [''Bearer'', t]"
    using assms by (rule bearer_shape_Split)
  have "h \<noteq> []" using assms by (rule bearer_shape_not_empty)
  then show ?thesis
    by (simp add: AuthenticationToken_def Let_def s)
qed

lemma AuthenticationToken_reads_only:
  "tokens (snd (AuthenticationToken h w)) = tokens w"
  "users (snd (AuthenticationToken h w)) = users w"
  "clock (snd (AuthenticationToken h w)) = clock w"
proof -
  have "tokens (snd (AuthenticationToken h w)) = tokens w
      \<and> users (snd (AuthenticationToken h w)) = users w
      \<and> clock (snd (AuthenticationToken h w)) = clock w"
  proof (cases "h = []")
    case True
    then show ?thesis by (simp add: AuthenticationToken_empty)
  next
    case False
    show ?thesis
    proof (cases "\<exists>t. bearer_shape h t")
      case False
      with \<open>h \<noteq> []\<close> show ?thesis by (simp add: AuthenticationToken_malformed)
    next
      case True
      then obtain t where t: "bearer_shape h t" ..
      obtain r w1 where g: "GetByToken t w = (r, w1)" by (cases "GetByToken t w")
      have k1: "tokens w1 = tokens w" "users w1 = users w" "clock w1 = clock w"
        using GetByToken_keeps [of t w] by (simp_all add: g)
      show ?thesis
      proof (cases r)
        case (Inl e)
        with g k1 show ?thesis
          by (simp add: AuthenticationToken_shaped [OF t])
      next
        case (Inr tm)
        obtain r2 w2 where u: "GetUserByToken tm w1 = (r2, w2)" by (cases "GetUserByToken tm w1")
        have k2: "tokens w2 = tokens w1" "users w2 = users w1" "clock w2 = clock w1"
          using GetUserByToken_keeps [of tm w1] by (simp_all add: u)
        from g Inr u k1 k2 show ?thesis
          by (cases r2) (simp_all add: AuthenticationToken_shaped [OF t])
      qed
    qed
  qed
  then show "tokens (snd (AuthenticationToken h w)) = tokens w"
    "users (snd (AuthenticationToken h w)) = users w"
    "clock (snd (AuthenticationToken h w)) = clock w" by simp_all
qed

lemma plainText_db_simps:
  "users plainText_db = [alice_row]" "faults plainText_db = []" "tokens plainText_db = [session_row]"
  "token_column plainText_db = ''plainText''" "clock plainText_db = noon"
  by (simp_all add: plainText_db_def spec_db_def empty_db_def)

lemma bearer_letters: "bearer_shape (''Bearer '' @ letters) letters" "length letters = 26"
  by (simp_all add: bearer_shape_def letters_def)

lemma lookup_letters:
  "faults w = [] \<Longrightarrow> token_column w = ''plainText'' \<Longrightarrow> tokens w = [session_row] \<Longrightarrow>
   GetByToken letters w = (Inr (scan_token session_row), snd (GetByToken letters w))"
  by (simp add: GetByToken_eq session_row_def)

text \<open>
  C1, as the code has it. When the lookup of the token returns a row,
  \<^verbatim>\<open>AuthenticationToken\<close> fails with "token expired" exactly when the row's expiry is
  strictly before the current time (\<^verbatim>\<open>Expiry.Before(time.Now())\<close>); otherwise, so also
  when the current time equals the expiry, it goes on to resolve the user. So it
  succeeds only when the expiry is not before the current time. Whatever the outcome,
  it leaves the rows of both tables as they are.
\<close>

theorem AuthenticationToken_expiry:
  assumes "bearer_shape h t" and "length t = 26"
    and "GetByToken t w = (Inr tokenModel, w1)"
  shows "AuthenticationToken h w =
           (if Expiry tokenModel < clock w then (Inl TokenExpired, w1)
            else (case GetUserByToken tokenModel w1 of
                (Inl err, w2) \<Rightarrow> (Inl NoMatchingUserFound, w2)
              | (Inr user, w2) \<Rightarrow> (Inr user, w2)))
       \<and> (fst (AuthenticationToken h w) = Inl TokenExpired \<longleftrightarrow> Expiry tokenModel < clock w)
       \<and> tokens (snd (AuthenticationToken h w)) = tokens w
       \<and> users (snd (AuthenticationToken h w)) = users w"
proof -
  have c: "clock w1 = clock w" using assms(3) by (rule GetByToken_Inr)
  have e: "AuthenticationToken h w =
           (if Expiry tokenModel < clock w then (Inl TokenExpired, w1)
            else (case GetUserByToken tokenModel w1 of
                (Inl err, w2) \<Rightarrow> (Inl NoMatchingUserFound, w2)
              | (Inr user, w2) \<Rightarrow> (Inr user, w2)))"
    by (simp add: AuthenticationToken_shaped [OF assms(1)] assms(2,3) c)
  have i: "fst (AuthenticationToken h w) = Inl TokenExpired \<longleftrightarrow> Expiry tokenModel < clock w"
    by (simp add: e split: prod.splits sum.splits)
  have r: "tokens (snd (AuthenticationToken h w)) = tokens w"
    "users (snd (AuthenticationToken h w)) = users w"
    by (rule AuthenticationToken_reads_only)+
  from e i r show ?thesis by (intro conjI)
qed

theorem AuthenticationToken_expiry_witness:
  "fst (AuthenticationToken (''Bearer '' @ letters) (plainText_db\<lparr>clock := noon + 1\<rparr>)) = Inl TokenExpired
   \<and> tokens (snd (AuthenticationToken (''Bearer '' @ letters) (plainText_db\<lparr>clock := noon + 1\<rparr>)))
       = [session_row]
   \<and> fst (AuthenticationToken (''Bearer '' @ letters) (plainText_db\<lparr>clock := noon - 1\<rparr>)) \<noteq> Inl TokenExpired"
proof -
  let ?late = "plainText_db\<lparr>clock := noon + 1\<rparr>"
  let ?early = "plainText_db\<lparr>clock := noon - 1\<rparr>"
  have l: "GetByToken letters ?late = (Inr (scan_token session_row), snd (GetByToken letters ?late))"
    by (rule lookup_letters) (simp_all add: plainText_db_simps)
  have e: "GetByToken letters ?early = (Inr (scan_token session_row), snd (GetByToken letters ?early))"
    by (rule lookup_letters) (simp_all add: plainText_db_simps)
  have x: "Expiry (scan_token session_row) = noon"
    by (simp add: scan_token_def session_row_def)
  note late = AuthenticationToken_expiry [OF bearer_letters l]
  note early = AuthenticationToken_expiry [OF bearer_letters e]
  have "Expiry (scan_token session_row) < clock ?late"
    by (simp add: x plainText_db_simps)
  with late [THEN conjunct2, THEN conjunct1]
  have 1: "fst (AuthenticationToken (''Bearer '' @ letters) ?late) = Inl TokenExpired"
    by blast
  from late [THEN conjunct2, THEN conjunct2, THEN conjunct1]
  have 2: "tokens (snd (AuthenticationToken (''Bearer '' @ letters) ?late)) = [session_row]"
    by (simp add: plainText_db_simps)
  have "\<not> Expiry (scan_token session_row) < clock ?early"
    by (simp add: x plainText_db_simps)
  with early [THEN conjunct2, THEN conjunct1]
  have 3: "fst (AuthenticationToken (''Bearer '' @ letters) ?early) \<noteq> Inl TokenExpired"
    by blast
  from 1 2 3 show ?thesis by (intro conjI)
qed

text \<open>
  The claim C1 as the spec states it fails at the instant of expiry: with a stored
  token whose expiry equals the current time (and a table in which the lookup finds
  it), the request is authenticated, not rejected as expired.
\<close>

theorem AuthenticationToken_at_expiry_counterexample:
  "tokens plainText_db = [session_row] \<and> tokens_token session_row = letters
   \<and> tokens_expiry session_row = clock plainText_db
   \<and> fst (AuthenticationToken (''Bearer '' @ letters) plainText_db) = Inr (scan_user alice_row)"
proof -
  have "fst (AuthenticationToken h plainText_db) = Inr (scan_user alice_row)"
    if "bearer_shape h letters" for h
    by (simp add: AuthenticationToken_shaped [OF that] bearer_letters(2)
        GetByToken_eq GetUserByToken_eq plainText_db_simps)
       (simp add: session_row_def scan_token_def alice_row_def)
  from this [OF bearer_letters(1)] show ?thesis
    by (simp add: plainText_db_simps session_row_def)
qed

lemma not_bearer_Token_abc: "\<nexists>t. bearer_shape ''Token abc'' t"
  by (simp add: bearer_shape_def)

lemma bearer_ab: "bearer_shape ''Bearer ab'' ''ab''"
  by (simp add: bearer_shape_def)

lemma bearer_shape_unique: "bearer_shape h t \<Longrightarrow> bearer_shape h t' \<Longrightarrow> t' = t"
  by (simp add: bearer_shape_def)

lemma bearer_stranger: "bearer_shape (''Bearer '' @ stranger) stranger" "length stranger = 26"
  by (simp_all add: bearer_shape_def stranger_def)

lemma stranger_unknown: "\<forall>r \<in> set (tokens plainText_db). tokens_token r \<noteq> stranger"
  by (simp add: plainText_db_simps session_row_def stranger_def letters_def)

text \<open>
  C6. \<^verbatim>\<open>AuthenticationToken\<close> checks in this order, and stops at the first check that
  fails, before any statement is issued:
  the empty header fails with "no token provided" and a non-empty header that is not
  \<^verbatim>\<open>Bearer <token>\<close> with a single space (such as \<^verbatim>\<open>Token abc\<close>) with "invalid token
  format", the two messages of the spec's MalformedHeader; a header of that shape
  whose token is not 26 bytes long (such as \<^verbatim>\<open>Bearer ab\<close>) fails with "invalid token
  length"; a header of that shape with a token of 26 bytes that no row holds fails
  with "no matching token found". The first three kinds are returned for no other
  header.
\<close>

theorem AuthenticationToken_rejects:
  "AuthenticationToken [] w = (Inl NoTokenProvided, w)
   \<and> (h \<noteq> [] \<and> (\<nexists>t. bearer_shape h t) \<longrightarrow> AuthenticationToken h w = (Inl InvalidTokenFormat, w))
   \<and> AuthenticationToken ''Token abc'' w = (Inl InvalidTokenFormat, w)
   \<and> (bearer_shape h t \<and> length t \<noteq> 26 \<longrightarrow> AuthenticationToken h w = (Inl InvalidTokenLength, w))
   \<and> AuthenticationToken ''Bearer ab'' w = (Inl InvalidTokenLength, w)
   \<and> (bearer_shape h t \<and> length t = 26 \<and> (\<forall>r \<in> set (tokens w). tokens_token r \<noteq> t)
        \<longrightarrow> fst (AuthenticationToken h w) = Inl NoMatchingTokenFound)
   \<and> (fst (AuthenticationToken h w) = Inl NoTokenProvided \<longleftrightarrow> h = [])
   \<and> (fst (AuthenticationToken h w) = Inl InvalidTokenFormat
        \<longleftrightarrow> h \<noteq> [] \<and> (\<nexists>t. bearer_shape h t))
   \<and> (fst (AuthenticationToken h w) = Inl InvalidTokenLength
        \<longleftrightarrow> (\<exists>t. bearer_shape h t \<and> length t \<noteq> 26))"
proof -
  have 1: "AuthenticationToken [] w = (Inl NoTokenProvided, w)" for w
    by (rule AuthenticationToken_empty)
  have 2: "AuthenticationToken h w = (Inl InvalidTokenFormat, w)"
    if "h \<noteq> [] \<and> (\<nexists>t. bearer_shape h t)" for h w
    using that by (simp add: AuthenticationToken_malformed)
  have 3: "AuthenticationToken ''Token abc'' w = (Inl InvalidTokenFormat, w)"
    by (rule AuthenticationToken_malformed [OF _ not_bearer_Token_abc]) simp
  have 4: "AuthenticationToken h w = (Inl InvalidTokenLength, w)"
    if "bearer_shape h t \<and> length t \<noteq> 26" for h t w
    using that AuthenticationToken_shaped [of h t w] by simp
  have 5: "AuthenticationToken ''Bearer ab'' w = (Inl InvalidTokenLength, w)"
    by (simp add: AuthenticationToken_shaped [OF bearer_ab])
  have 6: "fst (AuthenticationToken h w) = Inl NoMatchingTokenFound"
    if a: "bearer_shape h t \<and> length t = 26 \<and> (\<forall>r \<in> set (tokens w). tokens_token r \<noteq> t)"
  proof -
    from a obtain e where "fst (GetByToken t w) = Inl e"
      using GetByToken_no_row [of w t] by blast
    then obtain w1 where "GetByToken t w = (Inl e, w1)"
      by (cases "GetByToken t w") simp
    with a show ?thesis
      using AuthenticationToken_shaped [of h t w] by simp
  qed
  have shaped: "fst (AuthenticationToken h w) \<noteq> Inl NoTokenProvided
      \<and> fst (AuthenticationToken h w) \<noteq> Inl InvalidTokenFormat
      \<and> (fst (AuthenticationToken h w) = Inl InvalidTokenLength \<longleftrightarrow> length t \<noteq> 26)"
    if "bearer_shape h t" for t
    by (simp add: AuthenticationToken_shaped [OF that] split: prod.splits sum.splits)
  have 7: "fst (AuthenticationToken h w) = Inl NoTokenProvided \<longleftrightarrow> h = []"
    using 1 [of w] 2 [of h w] shaped by (cases "h = []"; cases "\<exists>t. bearer_shape h t") auto
  have 8: "fst (AuthenticationToken h w) = Inl InvalidTokenFormat
        \<longleftrightarrow> h \<noteq> [] \<and> (\<nexists>t. bearer_shape h t)"
    using 1 [of w] 2 [of h w] shaped by (cases "h = []"; cases "\<exists>t. bearer_shape h t") auto
  have 9: "fst (AuthenticationToken h w) = Inl InvalidTokenLength
        \<longleftrightarrow> (\<exists>t. bearer_shape h t \<and> length t \<noteq> 26)"
  proof (cases "\<exists>t. bearer_shape h t")
    case True
    then obtain t where t: "bearer_shape h t" ..
    then have "\<And>t'. bearer_shape h t' \<Longrightarrow> t' = t" by (rule bearer_shape_unique)
    with shaped [OF t] t show ?thesis by blast
  next
    case False
    then show ?thesis using 1 [of w] 2 [of h w] by (cases "h = []") auto
  qed
  from 1 2 3 4 5 6 7 8 9 show ?thesis by blast
qed

theorem AuthenticationToken_rejects_witness:
  "AuthenticationToken [] spec_db = (Inl NoTokenProvided, spec_db)
   \<and> AuthenticationToken ''Token abc'' spec_db = (Inl InvalidTokenFormat, spec_db)
   \<and> AuthenticationToken ''Bearer ab'' spec_db = (Inl InvalidTokenLength, spec_db)
   \<and> AuthenticationToken ''Bearer  ab'' spec_db = (Inl InvalidTokenFormat, spec_db)
   \<and> fst (AuthenticationToken (''Bearer '' @ stranger) plainText_db) = Inl NoMatchingTokenFound"
proof -
  note r = AuthenticationToken_rejects
  have 1: "AuthenticationToken [] spec_db = (Inl NoTokenProvided, spec_db)"
    using r [of spec_db] by blast
  have 2: "AuthenticationToken ''Token abc'' spec_db = (Inl InvalidTokenFormat, spec_db)"
    using r [of spec_db] by blast
  have 3: "AuthenticationToken ''Bearer ab'' spec_db = (Inl InvalidTokenLength, spec_db)"
    using r [of spec_db "''Bearer ab''" "''ab''"] bearer_ab by simp
  have "\<nexists>t. bearer_shape ''Bearer  ab'' t"
    by (simp add: bearer_shape_def)
  then have 4: "AuthenticationToken ''Bearer  ab'' spec_db = (Inl InvalidTokenFormat, spec_db)"
    using r [of spec_db "''Bearer  ab''"] by simp
  have 5: "fst (AuthenticationToken (''Bearer '' @ stranger) plainText_db) = Inl NoMatchingTokenFound"
    using r [of plainText_db "''Bearer '' @ stranger" stranger] bearer_stranger stranger_unknown
    by blast
  from 1 2 3 4 5 show ?thesis by (intro conjI)
qed

lemma AuthenticationToken_trace:
  assumes "bearer_shape h t" and "length t = 26"
  shows "\<exists>evs. trace (snd (AuthenticationToken h w))
           = trace w @ Issued (select_token t) (clock w) # evs"
proof -
  obtain r w1 where g: "GetByToken t w = (r, w1)" by (cases "GetByToken t w")
  have t1: "trace w1 = trace w @ [Issued (select_token t) (clock w)]"
    using GetByToken_keeps(5) [of t w] by (simp add: g)
  show ?thesis
  proof (cases r)
    case (Inl e)
    with g t1 show ?thesis
      by (simp add: AuthenticationToken_shaped [OF assms(1)] assms(2))
  next
    case (Inr tm)
    obtain r2 w2 where u: "GetUserByToken tm w1 = (r2, w2)" by (cases "GetUserByToken tm w1")
    have t2: "trace w2 = trace w1 @ [Issued (select_user (UserID tm)) (clock w1)]"
      using GetUserByToken_keeps(5) [of tm w1] by (simp add: u)
    from g Inr u t1 t2 show ?thesis
      by (cases r2) (simp_all add: AuthenticationToken_shaped [OF assms(1)] assms(2))
  qed
qed

lemma bearer_odd: "bearer_shape (''Bearer '' @ odd_token) odd_token" "length odd_token = 26"
  by (simp_all add: bearer_shape_def odd_token_def)

lemma odd_token_not_base32: "set odd_token \<inter> set encodeStd = {}"
  by (simp add: odd_token_def encodeStd_def)

lemma AuthenticationToken_proceeds:
  assumes "bearer_shape h t" and "length t = 26"
  shows "AuthenticationToken h w =
           (case GetByToken t w of
              (Inl err, w1) \<Rightarrow> (Inl NoMatchingTokenFound, w1)
            | (Inr tokenModel, w1) \<Rightarrow>
                if Expiry tokenModel < clock w1 then (Inl TokenExpired, w1)
                else (case GetUserByToken tokenModel w1 of
                    (Inl err, w2) \<Rightarrow> (Inl NoMatchingUserFound, w2)
                  | (Inr user, w2) \<Rightarrow> (Inr user, w2)))
       \<and> (\<exists>evs. new_events w (snd (AuthenticationToken h w))
              = Issued (select_token t) (clock w) # evs)
       \<and> fst (AuthenticationToken h w) \<noteq> Inl NoTokenProvided
       \<and> fst (AuthenticationToken h w) \<noteq> Inl InvalidTokenFormat
       \<and> fst (AuthenticationToken h w) \<noteq> Inl InvalidTokenLength"
proof -
  have e: "AuthenticationToken h w =
           (case GetByToken t w of
              (Inl err, w1) \<Rightarrow> (Inl NoMatchingTokenFound, w1)
            | (Inr tokenModel, w1) \<Rightarrow>
                if Expiry tokenModel < clock w1 then (Inl TokenExpired, w1)
                else (case GetUserByToken tokenModel w1 of
                    (Inl err, w2) \<Rightarrow> (Inl NoMatchingUserFound, w2)
                  | (Inr user, w2) \<Rightarrow> (Inr user, w2)))"
    by (simp add: AuthenticationToken_shaped [OF assms(1)] assms(2))
  from AuthenticationToken_trace [OF assms, of w]
  have n: "\<exists>evs. new_events w (snd (AuthenticationToken h w))
              = Issued (select_token t) (clock w) # evs"
    by (auto simp: new_events_def)
  have k: "fst (AuthenticationToken h w) \<noteq> Inl NoTokenProvided"
    "fst (AuthenticationToken h w) \<noteq> Inl InvalidTokenFormat"
    "fst (AuthenticationToken h w) \<noteq> Inl InvalidTokenLength"
    by (simp_all add: e split: prod.splits sum.splits)
  from e n k show ?thesis by (intro conjI)
qed

lemma AuthenticationToken_space_in_token:
  assumes "h = ''Bearer '' @ t" and "CHR '' '' \<in> set t"
  shows "AuthenticationToken h w = (Inl InvalidTokenFormat, w)"
proof (rule AuthenticationToken_malformed)
  show "h \<noteq> []" using assms(1) by simp
  show "\<nexists>t'. bearer_shape h t'"
    using assms by (auto simp: bearer_shape_def)
qed

lemma spaced_token_simps: "length spaced_token = 26" "CHR '' '' \<in> set spaced_token"
  by (simp_all add: spaced_token_def)

text \<open>
  C10, as the code has it. Take a header \<^verbatim>\<open>Bearer <t>\<close> with \<open>t\<close> of 26 bytes (the
  length is Go's \<^verbatim>\<open>len\<close>).
  \<^item> When \<open>t\<close> holds no space, whatever else its bytes are, \<^verbatim>\<open>AuthenticationToken\<close>
    passes the shape and the length check and goes on to the lookup: the statement it
    issues next is the \<^verbatim>\<open>SELECT\<close> of \<^verbatim>\<open>GetByToken\<close> with \<open>t\<close> as its argument, and its
    result is decided by that lookup. The alphabet of \<open>t\<close> is never examined.
  \<^item> When \<open>t\<close> holds a space, \<^verbatim>\<open>strings.Split\<close> gives more than two parts and the
    header fails with "invalid token format" before any lookup.
\<close>

theorem AuthenticationToken_checks_length_only:
  assumes "h = ''Bearer '' @ t" and "length t = 26"
  shows "(CHR '' '' \<notin> set t \<longrightarrow>
           AuthenticationToken h w =
             (case GetByToken t w of
                (Inl err, w1) \<Rightarrow> (Inl NoMatchingTokenFound, w1)
              | (Inr tokenModel, w1) \<Rightarrow>
                  if Expiry tokenModel < clock w1 then (Inl TokenExpired, w1)
                  else (case GetUserByToken tokenModel w1 of
                      (Inl err, w2) \<Rightarrow> (Inl NoMatchingUserFound, w2)
                    | (Inr user, w2) \<Rightarrow> (Inr user, w2)))
           \<and> (\<exists>evs. new_events w (snd (AuthenticationToken h w))
                  = Issued (select_token t) (clock w) # evs)
           \<and> fst (AuthenticationToken h w) \<noteq> Inl NoTokenProvided
           \<and> fst (AuthenticationToken h w) \<noteq> Inl InvalidTokenFormat
           \<and> fst (AuthenticationToken h w) \<noteq> Inl InvalidTokenLength)
       \<and> (CHR '' '' \<in> set t \<longrightarrow> AuthenticationToken h w = (Inl InvalidTokenFormat, w))"
proof (rule conjI; rule impI)
  assume "CHR '' '' \<in> set t"
  with assms(1) show "AuthenticationToken h w = (Inl InvalidTokenFormat, w)"
    by (rule AuthenticationToken_space_in_token)
next
  assume "CHR '' '' \<notin> set t"
  with assms(1) have "bearer_shape h t" by (simp add: bearer_shape_def)
  then show "AuthenticationToken h w =
             (case GetByToken t w of
                (Inl err, w1) \<Rightarrow> (Inl NoMatchingTokenFound, w1)
              | (Inr tokenModel, w1) \<Rightarrow>
                  if Expiry tokenModel < clock w1 then (Inl TokenExpired, w1)
                  else (case GetUserByToken tokenModel w1 of
                      (Inl err, w2) \<Rightarrow> (Inl NoMatchingUserFound, w2)
                    | (Inr user, w2) \<Rightarrow> (Inr user, w2)))
           \<and> (\<exists>evs. new_events w (snd (AuthenticationToken h w))
                  = Issued (select_token t) (clock w) # evs)
           \<and> fst (AuthenticationToken h w) \<noteq> Inl NoTokenProvided
           \<and> fst (AuthenticationToken h w) \<noteq> Inl InvalidTokenFormat
           \<and> fst (AuthenticationToken h w) \<noteq> Inl InvalidTokenLength"
    using assms(2) by (rule AuthenticationToken_proceeds)
qed

theorem AuthenticationToken_checks_length_only_witness:
  "length odd_token = 26 \<and> set odd_token \<inter> set encodeStd = {}
   \<and> (\<exists>evs. new_events spec_db (snd (AuthenticationToken (''Bearer '' @ odd_token) spec_db))
          = Issued (select_token odd_token) (clock spec_db) # evs)
   \<and> fst (AuthenticationToken (''Bearer '' @ odd_token) spec_db) \<noteq> Inl InvalidTokenFormat
   \<and> fst (AuthenticationToken (''Bearer '' @ odd_token) spec_db) \<noteq> Inl InvalidTokenLength
   \<and> length spaced_token = 26
   \<and> AuthenticationToken (''Bearer '' @ spaced_token) users_db = (Inl InvalidTokenFormat, users_db)"
proof -
  have o: "CHR '' '' \<notin> set odd_token" by (simp add: odd_token_def)
  note c = AuthenticationToken_checks_length_only [OF refl bearer_odd(2), of spec_db]
  note d = AuthenticationToken_checks_length_only [OF refl spaced_token_simps(1), of users_db]
  from c o have 1: "(\<exists>evs. new_events spec_db (snd (AuthenticationToken (''Bearer '' @ odd_token) spec_db))
          = Issued (select_token odd_token) (clock spec_db) # evs)"
    and 2: "fst (AuthenticationToken (''Bearer '' @ odd_token) spec_db) \<noteq> Inl InvalidTokenFormat"
    and 3: "fst (AuthenticationToken (''Bearer '' @ odd_token) spec_db) \<noteq> Inl InvalidTokenLength"
    by blast+
  from d spaced_token_simps(2)
  have 4: "AuthenticationToken (''Bearer '' @ spaced_token) users_db = (Inl InvalidTokenFormat, users_db)"
    by blast
  from bearer_odd(2) odd_token_not_base32 1 2 3 spaced_token_simps(1) 4 show ?thesis
    by (intro conjI)
qed

text \<open>
  The claim C10 as stated, for any string of 26 characters, fails for a string that
  holds a space: the header is rejected as malformed and the token store is never
  asked.
\<close>

theorem AuthenticationToken_spaced_token_counterexample:
  "length spaced_token = 26
   \<and> AuthenticationToken (''Bearer '' @ spaced_token) spec_db = (Inl InvalidTokenFormat, spec_db)
   \<and> new_events spec_db (snd (AuthenticationToken (''Bearer '' @ spaced_token) spec_db)) = []"
proof -
  have "AuthenticationToken (''Bearer '' @ spaced_token) spec_db = (Inl InvalidTokenFormat, spec_db)"
    by (rule AuthenticationToken_space_in_token [OF refl spaced_token_simps(2)])
  then show ?thesis
    by (simp add: spaced_token_simps(1) new_events_def)
qed

subsection \<open>Retries\<close>

lemma one_shotI:
  "trace w' = trace w @ evs \<Longrightarrow> distinct (statements evs) \<Longrightarrow> sleeps evs = [] \<Longrightarrow>
   length (reads evs) \<le> 1 \<Longrightarrow> clock w' = clock w \<Longrightarrow> one_shot w w'"
  unfolding one_shot_def by blast

lemma one_shot_statement:
  "trace w' = trace w @ [Issued q t] \<Longrightarrow> clock w' = clock w \<Longrightarrow> one_shot w w'"
  by (rule one_shotI [where evs = "[Issued q t]"]) simp_all

lemma GetAll_trace:
  "trace (snd (GetAll w)) = trace w @ [Issued select_users (clock w)]"
  "clock (snd (GetAll w)) = clock w"
  "faults w = Some e # fs \<Longrightarrow> fst (GetAll w) = Inl (Db e)"
  using dbTimeout_pos
  by (simp_all add: GetAll_def QueryContext_def issue_eq Let_def WithTimeout_def
      users_columns_defined split: list.splits option.splits)

lemma GetByEmail_trace:
  "trace (snd (GetByEmail email w)) = trace w @ [Issued (select_user_by_email email) (clock w)]"
  "clock (snd (GetByEmail email w)) = clock w"
  "faults w = Some e # fs \<Longrightarrow>
     fst (GetByEmail email w) = Inl (if e = ErrNoRows then NoUserFoundWithEmail email else Db e)"
  using dbTimeout_pos
  by (simp_all add: GetByEmail_def QueryRowContext_def issue_eq Let_def WithTimeout_def
      first_row_def users_columns_defined split: list.splits option.splits)

lemma GetByID_trace:
  "trace (snd (GetByID uid w)) = trace w @ [Issued (select_user uid) (clock w)]"
  "clock (snd (GetByID uid w)) = clock w"
  "faults w = Some e # fs \<Longrightarrow>
     fst (GetByID uid w) = Inl (if e = ErrNoRows then UserNotFound else Db e)"
  using dbTimeout_pos
  by (simp_all add: GetByID_def QueryRowContext_def issue_eq Let_def WithTimeout_def
      first_row_def users_columns_defined split: list.splits option.splits)

lemma Update_trace:
  "trace (snd (Update user w)) = trace w @ [Issued (update_user user) (clock w)]"
  "clock (snd (Update user w)) = clock w"
  "faults w = Some e # fs \<Longrightarrow> fst (Update user w) = Some (Db e)"
  using dbTimeout_pos
  by (simp_all add: Update_def ExecContext_def issue_eq Let_def WithTimeout_def
      users_columns_defined split: list.splits option.splits)

lemma Delete_trace:
  "trace (snd (Delete uid w)) = trace w @ [Issued (delete_user uid) (clock w)]"
  "clock (snd (Delete uid w)) = clock w"
  "faults w = Some e # fs \<Longrightarrow> fst (Delete uid w) = Some (Db e)"
  by (simp_all add: Delete_eq split: list.splits option.splits)

lemma GenerateToken_trace:
  "trace (snd (GenerateToken Sum256 userID ttl w)) = trace w @ [RandRead 16]"
  "clock (snd (GenerateToken Sum256 userID ttl w)) = clock w"
  "length (entropy w) < 16 \<Longrightarrow> fst (GenerateToken Sum256 userID ttl w) = Inl RandError"
  by (simp_all add: GenerateToken_def rand_Read_def Let_def)

lemma GetByToken_fault:
  "faults w = Some e # fs \<Longrightarrow>
     fst (GetByToken p w) = Inl (if e = ErrNoRows then NoPlainTextFound p else Db e)"
  by (simp add: GetByToken_eq)

lemma DeleteToken_fault:
  "faults w = Some e # fs \<Longrightarrow> fst (DeleteToken p w) = Some (Db e)"
  by (simp add: DeleteToken_eq)

lemma insert_tokens_row_keeps:
  "insert_tokens_row tk w = Inr w' \<Longrightarrow> trace w' = trace w \<and> clock w' = clock w"
  by (auto simp: insert_tokens_row_def split: if_splits)

lemma InsertToken_trace:
  "(trace (snd (InsertToken tk w)) = trace w @ [Issued (delete_token (Token.Token tk)) (clock w)]
    \<or> trace (snd (InsertToken tk w)) = trace w @
         [Issued (delete_token (Token.Token tk)) (clock w), Issued (insert_token tk (clock w)) (clock w)])
   \<and> clock (snd (InsertToken tk w)) = clock w"
proof -
  obtain r w1 where d: "DeleteToken (Token.Token tk) w = (r, w1)"
    by (cases "DeleteToken (Token.Token tk) w")
  have k1: "trace w1 = trace w @ [Issued (delete_token (Token.Token tk)) (clock w)]"
    "clock w1 = clock w"
    using DeleteToken_keeps [of "Token.Token tk" w] by (simp_all add: d)
  show ?thesis
  proof (cases r)
    case (Some err)
    with d k1 show ?thesis by (simp add: InsertToken_eq)
  next
    case None
    obtain r2 w2 where x: "ExecContext (clock w + dbTimeout) (insert_token tk (clock w))
        (insert_tokens_row tk) w1 = (r2, w2)"
      by (cases "ExecContext (clock w + dbTimeout) (insert_token tk (clock w))
        (insert_tokens_row tk) w1")
    then have "trace w2 = trace w1 @ [Issued (insert_token tk (clock w)) (clock w)]
        \<and> clock w2 = clock w"
      by (auto simp: ExecContext_def issue_eq k1 insert_tokens_row_def
          split: list.splits option.splits if_splits prod.splits sum.splits)
    with d None x k1 show ?thesis
      by (cases r2) (simp_all add: InsertToken_eq)
  qed
qed

lemma InsertToken_fault:
  "faults w = Some e # fs \<Longrightarrow>
   fst (InsertToken tk w) = Some (Db e)
   \<and> trace (snd (InsertToken tk w)) = trace w @ [Issued (delete_token (Token.Token tk)) (clock w)]"
  by (simp add: InsertToken_eq DeleteToken_eq)

lemma distinct_two_statements:
  "delete_token p \<noteq> insert_token tk now" "select_token p \<noteq> select_user uid"
  by (simp_all add: delete_token_def insert_token_def select_token_def select_user_def)

lemma InsertToken_one_shot: "one_shot w (snd (InsertToken tk w))"
  using InsertToken_trace [of tk w]
  by (auto intro!: one_shotI simp: distinct_two_statements)

lemma AuthenticationToken_full_trace:
  "trace (snd (AuthenticationToken h w)) = trace w
   \<or> (\<exists>t. trace (snd (AuthenticationToken h w)) = trace w @ [Issued (select_token t) (clock w)])
   \<or> (\<exists>t uid. trace (snd (AuthenticationToken h w))
        = trace w @ [Issued (select_token t) (clock w), Issued (select_user uid) (clock w)])"
proof (cases "h = []")
  case True
  then show ?thesis by (simp add: AuthenticationToken_empty)
next
  case False
  show ?thesis
  proof (cases "\<exists>t. bearer_shape h t")
    case False
    with \<open>h \<noteq> []\<close> show ?thesis by (simp add: AuthenticationToken_malformed)
  next
    case True
    then obtain t where t: "bearer_shape h t" ..
    obtain r w1 where g: "GetByToken t w = (r, w1)" by (cases "GetByToken t w")
    have k1: "trace w1 = trace w @ [Issued (select_token t) (clock w)]" "clock w1 = clock w"
      using GetByToken_keeps [of t w] by (simp_all add: g)
    show ?thesis
    proof (cases r)
      case (Inl e)
      with g k1 show ?thesis
        by (auto simp: AuthenticationToken_shaped [OF t])
    next
      case (Inr tm)
      obtain r2 w2 where u: "GetUserByToken tm w1 = (r2, w2)" by (cases "GetUserByToken tm w1")
      have k2: "trace w2 = trace w1 @ [Issued (select_user (UserID tm)) (clock w1)]"
        using GetUserByToken_keeps [of tm w1] by (simp_all add: u)
      from g Inr u k1 k2 show ?thesis
        by (cases r2) (auto simp: AuthenticationToken_shaped [OF t])
    qed
  qed
qed

lemma AuthenticationToken_one_shot: "one_shot w (snd (AuthenticationToken h w))"
proof -
  have c: "clock (snd (AuthenticationToken h w)) = clock w"
    by (rule AuthenticationToken_reads_only)
  from AuthenticationToken_full_trace [of h w] show ?thesis
  proof (elim disjE exE)
    assume "trace (snd (AuthenticationToken h w)) = trace w"
    then show ?thesis using c by (intro one_shotI [where evs = "[]"]) simp_all
  next
    fix t assume "trace (snd (AuthenticationToken h w)) = trace w @ [Issued (select_token t) (clock w)]"
    then show ?thesis using c by (rule one_shot_statement)
  next
    fix t uid
    assume "trace (snd (AuthenticationToken h w))
        = trace w @ [Issued (select_token t) (clock w), Issued (select_user uid) (clock w)]"
    then show ?thesis using c
      by (intro one_shotI [where evs = "[Issued (select_token t) (clock w), Issued (select_user uid) (clock w)]"])
         (simp_all add: distinct_two_statements)
  qed
qed

lemma AuthenticationToken_fault:
  assumes "bearer_shape h t" and "length t = 26" and "faults w = Some e # fs"
  shows "fst (AuthenticationToken h w) = Inl NoMatchingTokenFound"
    and "trace (snd (AuthenticationToken h w)) = trace w @ [Issued (select_token t) (clock w)]"
  using assms(2,3) by (simp_all add: AuthenticationToken_shaped [OF assms(1)] GetByToken_eq)

lemma others_one_shot:
  "one_shot w (snd (GetAll w))" "one_shot w (snd (GetByEmail email w))"
  "one_shot w (snd (GetByID uid w))" "one_shot w (snd (Update user w))"
  "one_shot w (snd (Delete uid w))" "one_shot w (snd (GetByToken p w))"
  "one_shot w (snd (DeleteToken p w))"
  "one_shot w (snd (GenerateToken Sum256 uid ttl w))"
proof -
  show "one_shot w (snd (GetAll w))"
    by (rule one_shot_statement [OF GetAll_trace(1) GetAll_trace(2)])
  show "one_shot w (snd (GetByEmail email w))"
    by (rule one_shot_statement [OF GetByEmail_trace(1) GetByEmail_trace(2)])
  show "one_shot w (snd (GetByID uid w))"
    by (rule one_shot_statement [OF GetByID_trace(1) GetByID_trace(2)])
  show "one_shot w (snd (Update user w))"
    by (rule one_shot_statement [OF Update_trace(1) Update_trace(2)])
  show "one_shot w (snd (Delete uid w))"
    by (rule one_shot_statement [OF Delete_trace(1) Delete_trace(2)])
  show "one_shot w (snd (GetByToken p w))"
    by (rule one_shot_statement [OF GetByToken_keeps(5) GetByToken_keeps(1)])
  show "one_shot w (snd (DeleteToken p w))"
    by (rule one_shot_statement [OF DeleteToken_keeps(3) DeleteToken_keeps(1)])
  show "one_shot w (snd (GenerateToken Sum256 uid ttl w))"
    by (rule one_shotI [OF GenerateToken_trace(1) _ _ _ GenerateToken_trace(2)]) simp_all
qed

lemma Insert_not_one_shot:
  assumes G: "G (bytes (User.Password u)) 12 = Inr hp"
    and f: "fst (Insert G u w) = Inl err"
  shows "\<not> one_shot w (snd (Insert G u w))"
proof
  assume "one_shot w (snd (Insert G u w))"
  then have "clock (snd (Insert G u w)) = clock w" by (simp add: one_shot_def)
  with Insert_failure(3) [OF G f] show False by (simp add: Second_def)
qed

lemma ResetPassword_trace:
  "trace (snd (ResetPassword u password w))
     = trace w @ [Issued (update_password password (User.ID u)) (clock w)]"
  "clock (snd (ResetPassword u password w)) = clock w"
  "fst (ResetPassword u password w) = None"
  using dbTimeout_pos
  by (simp_all add: ResetPassword_def ExecContext_def issue_eq Let_def WithTimeout_def
      users_columns_defined split: list.splits option.splits prod.splits)

lemma select_user_with_token_defined:
  "undefined_column w (select_user_with_token token) = None"
  by (simp add: undefined_column_def columns_def users_columns_def select_user_with_token_def)

lemma GetUserWithToken_trace:
  "trace (snd (GetUserWithToken int_of_text token w))
     = trace w @ [Issued (select_user_with_token token) (clock w)]"
  "clock (snd (GetUserWithToken int_of_text token w)) = clock w"
  "faults w = Some e # fs \<Longrightarrow>
     fst (GetUserWithToken int_of_text token w)
       = Inl (if e = ErrNoRows then NoUserFoundWithTokenString token else Db e)"
  using dbTimeout_pos
  by (simp_all add: GetUserWithToken_def QueryRowContext_def issue_eq Let_def WithTimeout_def
      select_users_row_with_token_def first_row_def select_user_with_token_defined
      split: list.splits option.splits)

lemma VaildateToken_trace:
  "trace (snd (VaildateToken int_of_text token w))
     = trace w @ [Issued (select_user_with_token token) (clock w)]"
  "clock (snd (VaildateToken int_of_text token w)) = clock w"
  "faults w = Some e # fs \<Longrightarrow>
     fst (VaildateToken int_of_text token w)
       = (False, Some (if e = ErrNoRows then NoUserFoundWithTokenString token else Db e))"
  using dbTimeout_pos
  by (simp_all add: VaildateToken_def QueryRowContext_def issue_eq Let_def WithTimeout_def
      select_users_row_with_token_def first_row_def select_user_with_token_defined
      split: list.splits option.splits)

lemma GetUserByToken_fault:
  "faults w = Some e # fs \<Longrightarrow>
     fst (GetUserByToken tk w) = Inl (if e = ErrNoRows then NoUserFoundWithToken tk else Db e)"
  by (simp add: GetUserByToken_eq)

lemma unlisted_one_shot:
  "one_shot w (snd (GetUserWithToken int_of_text token w))"
  "one_shot w (snd (VaildateToken int_of_text token w))"
proof -
  show "one_shot w (snd (GetUserWithToken int_of_text token w))"
    by (rule one_shot_statement [OF GetUserWithToken_trace(1) GetUserWithToken_trace(2)])
  show "one_shot w (snd (VaildateToken int_of_text token w))"
    by (rule one_shot_statement [OF VaildateToken_trace(1) VaildateToken_trace(2)])
qed

lemma more_one_shot:
  "one_shot w (snd (GetUserByToken tk w))" "one_shot w (snd (ResetPassword u password w))"
proof -
  show "one_shot w (snd (GetUserByToken tk w))"
    by (rule one_shot_statement [OF GetUserByToken_keeps(5) GetUserByToken_keeps(1)])
  show "one_shot w (snd (ResetPassword u password w))"
    by (rule one_shot_statement [OF ResetPassword_trace(1) ResetPassword_trace(2)])
qed

lemma flaky_db_simps:
  "faults flaky_db = [Some (DriverError 1)]" "users flaky_db = []" "clock flaky_db = noon"
  "entropy flaky_db = []"
  by (simp_all add: flaky_db_def empty_db_def)

lemma down_db_simps:
  "faults down_db = [Some (DriverError 1), Some (DriverError 2)]" "clock down_db = noon"
  by (simp_all add: down_db_def empty_db_def)

text \<open>
  Retries, as the code has them. \<^verbatim>\<open>Insert\<close> is the only method that tries a
  statement again.
  \<^item> When \<^verbatim>\<open>Insert\<close> fails after hashing, it has issued its \<^verbatim>\<open>INSERT\<close> exactly three
    times, slept exactly two seconds between one attempt and the next, and its error
    is the single "failed to insert user after 3 attempts" (which wraps the error of
    the third attempt: always the expired context, since the 3-second deadline fixed
    at the start of \<^verbatim>\<open>Insert\<close> is over after the two sleeps). Two failures of the
    connection in a row are enough for that; after one failure the second attempt can
    still succeed. A failure of the hashing itself is returned at once.
  \<^item> Every other method (\<^verbatim>\<open>GetAll\<close>, \<^verbatim>\<open>GetByEmail\<close>, \<^verbatim>\<open>GetByID\<close>, \<^verbatim>\<open>Update\<close>, \<^verbatim>\<open>Delete\<close>,
    \<^verbatim>\<open>ResetPassword\<close>, \<^verbatim>\<open>GenerateToken\<close>, \<^verbatim>\<open>GetByToken\<close>, \<^verbatim>\<open>GetUserByToken\<close>,
    \<^verbatim>\<open>InsertToken\<close>, \<^verbatim>\<open>DeleteToken\<close>, \<^verbatim>\<open>AuthenticationToken\<close>, \<^verbatim>\<open>GetUserWithToken\<close>,
    \<^verbatim>\<open>VaildateToken\<close>) issues no statement twice, reads the random source at most once
    and never sleeps. \<^verbatim>\<open>PasswordMatches\<close> touches neither the database nor the clock.
  \<^item> When the connection fails its first statement, each of them but one returns an
    error, and that statement is the last thing it does. The one is \<^verbatim>\<open>ResetPassword\<close>,
    which returns \<^verbatim>\<open>nil\<close> whatever happens.
\<close>

theorem only_Insert_retries:
  "(G (bytes (User.Password u)) 12 = Inr hp \<and> fst (Insert G u w) = Inl err
      \<longrightarrow> err = FailedToInsertUserAfter 3 (Some DeadlineExceeded)
        \<and> new_events w (snd (Insert G u w)) =
            [Issued (insert_user u hp) (clock w), Slept (Second * 2),
             Issued (insert_user u hp) (clock w + Second * 2), Slept (Second * 2),
             Issued (insert_user u hp) (clock w + Second * 4)]
        \<and> \<not> one_shot w (snd (Insert G u w)))
   \<and> (G (bytes (User.Password u)) 12 = Inr hp \<and> faults w = Some e1 # Some e2 # fs
      \<longrightarrow> fst (Insert G u w) = Inl (FailedToInsertUserAfter 3 (Some DeadlineExceeded)))
   \<and> (G (bytes (User.Password u)) 12 = Inr hp \<and> faults w = [Some e1]
        \<and> (\<forall>r \<in> set (users w). users_email r \<noteq> User.Email u)
      \<longrightarrow> fst (Insert G u w) = Inr 0
        \<and> new_events w (snd (Insert G u w)) =
            [Issued (insert_user u hp) (clock w), Slept (Second * 2),
             Issued (insert_user u hp) (clock w + Second * 2)])
   \<and> (G (bytes (User.Password u)) 12 = Inl be \<longrightarrow> Insert G u w = (Inl (Bcrypt be), w))
   \<and> one_shot w (snd (GetAll w))
   \<and> one_shot w (snd (GetByEmail email w))
   \<and> one_shot w (snd (GetByID uid w))
   \<and> one_shot w (snd (Update user w))
   \<and> one_shot w (snd (Delete uid w))
   \<and> one_shot w (snd (GenerateToken Sum256 uid ttl w))
   \<and> one_shot w (snd (GetByToken p w))
   \<and> one_shot w (snd (InsertToken tk w))
   \<and> one_shot w (snd (DeleteToken p w))
   \<and> one_shot w (snd (AuthenticationToken h w))
   \<and> one_shot w (snd (GetUserByToken tk w))
   \<and> one_shot w (snd (ResetPassword user password w))
   \<and> one_shot w (snd (GetUserWithToken int_of_text token w))
   \<and> one_shot w (snd (VaildateToken int_of_text token w))
   \<and> fst (ResetPassword user password w) = None
   \<and> (faults w = Some e # fs
      \<longrightarrow> fst (GetAll w) = Inl (Db e)
        \<and> fst (GetByEmail email w) = Inl (if e = ErrNoRows then NoUserFoundWithEmail email else Db e)
        \<and> fst (GetByID uid w) = Inl (if e = ErrNoRows then UserNotFound else Db e)
        \<and> fst (Update user w) = Some (Db e)
        \<and> fst (Delete uid w) = Some (Db e)
        \<and> fst (GetByToken p w) = Inl (if e = ErrNoRows then NoPlainTextFound p else Db e)
        \<and> fst (InsertToken tk w) = Some (Db e)
        \<and> new_events w (snd (InsertToken tk w)) = [Issued (delete_token (Token.Token tk)) (clock w)]
        \<and> fst (DeleteToken p w) = Some (Db e)
        \<and> fst (GetUserByToken tk w)
            = Inl (if e = ErrNoRows then NoUserFoundWithToken tk else Db e)
        \<and> fst (GetUserWithToken int_of_text token w)
            = Inl (if e = ErrNoRows then NoUserFoundWithTokenString token else Db e)
        \<and> fst (VaildateToken int_of_text token w)
            = (False, Some (if e = ErrNoRows then NoUserFoundWithTokenString token else Db e)))
   \<and> (faults w = Some e # fs \<and> bearer_shape h t \<and> length t = 26
      \<longrightarrow> fst (AuthenticationToken h w) = Inl NoMatchingTokenFound
        \<and> new_events w (snd (AuthenticationToken h w)) = [Issued (select_token t) (clock w)])
   \<and> (length (entropy w) < 16 \<longrightarrow> fst (GenerateToken Sum256 uid ttl w) = Inl RandError)"
proof -
  have i1: "err = FailedToInsertUserAfter 3 (Some DeadlineExceeded)
        \<and> new_events w (snd (Insert G u w)) =
            [Issued (insert_user u hp) (clock w), Slept (Second * 2),
             Issued (insert_user u hp) (clock w + Second * 2), Slept (Second * 2),
             Issued (insert_user u hp) (clock w + Second * 4)]
        \<and> \<not> one_shot w (snd (Insert G u w))"
    if "G (bytes (User.Password u)) 12 = Inr hp \<and> fst (Insert G u w) = Inl err"
    using that Insert_failure(1,2) [of G u hp w err] Insert_not_one_shot [of G u hp w err]
    by blast
  have i2: "fst (Insert G u w) = Inl (FailedToInsertUserAfter 3 (Some DeadlineExceeded))"
    if "G (bytes (User.Password u)) 12 = Inr hp \<and> faults w = Some e1 # Some e2 # fs"
    using that Insert_two_faults [of G u hp w e1 e2 fs] by blast
  have i3: "fst (Insert G u w) = Inr 0
        \<and> new_events w (snd (Insert G u w)) =
            [Issued (insert_user u hp) (clock w), Slept (Second * 2),
             Issued (insert_user u hp) (clock w + Second * 2)]"
    if "G (bytes (User.Password u)) 12 = Inr hp \<and> faults w = [Some e1]
        \<and> (\<forall>r \<in> set (users w). users_email r \<noteq> User.Email u)"
    using that Insert_retry_succeeds(1,2) [of G u hp w e1] by blast
  have i4: "Insert G u w = (Inl (Bcrypt be), w)" if "G (bytes (User.Password u)) 12 = Inl be"
    using that by (simp add: Insert_eq)
  have f1: "fst (GetAll w) = Inl (Db e)
        \<and> fst (GetByEmail email w) = Inl (if e = ErrNoRows then NoUserFoundWithEmail email else Db e)
        \<and> fst (GetByID uid w) = Inl (if e = ErrNoRows then UserNotFound else Db e)
        \<and> fst (Update user w) = Some (Db e)
        \<and> fst (Delete uid w) = Some (Db e)
        \<and> fst (GetByToken p w) = Inl (if e = ErrNoRows then NoPlainTextFound p else Db e)
        \<and> fst (InsertToken tk w) = Some (Db e)
        \<and> new_events w (snd (InsertToken tk w)) = [Issued (delete_token (Token.Token tk)) (clock w)]
        \<and> fst (DeleteToken p w) = Some (Db e)
        \<and> fst (GetUserByToken tk w)
            = Inl (if e = ErrNoRows then NoUserFoundWithToken tk else Db e)
        \<and> fst (GetUserWithToken int_of_text token w)
            = Inl (if e = ErrNoRows then NoUserFoundWithTokenString token else Db e)
        \<and> fst (VaildateToken int_of_text token w)
            = (False, Some (if e = ErrNoRows then NoUserFoundWithTokenString token else Db e))"
    if f: "faults w = Some e # fs"
    using GetAll_trace(3) [OF f] GetByEmail_trace(3) [OF f] GetByID_trace(3) [OF f]
      Update_trace(3) [OF f] Delete_trace(3) [OF f] GetByToken_fault [OF f]
      InsertToken_fault [OF f] DeleteToken_fault [OF f] GetUserByToken_fault [OF f]
      GetUserWithToken_trace(3) [OF f] VaildateToken_trace(3) [OF f]
    by (simp add: new_events_append)
  have f2: "fst (AuthenticationToken h w) = Inl NoMatchingTokenFound
        \<and> new_events w (snd (AuthenticationToken h w)) = [Issued (select_token t) (clock w)]"
    if "faults w = Some e # fs \<and> bearer_shape h t \<and> length t = 26"
    using that AuthenticationToken_fault [of h t w e fs] by (simp add: new_events_append)
  have f3: "fst (GenerateToken Sum256 uid ttl w) = Inl RandError" if "length (entropy w) < 16"
    using that by (rule GenerateToken_trace(3))
  note o = others_one_shot [of w] InsertToken_one_shot [of w] AuthenticationToken_one_shot [of w]
    more_one_shot [of w] unlisted_one_shot [of w] ResetPassword_trace(3) [of user password w]
  from i1 have j1: "G (bytes (User.Password u)) 12 = Inr hp \<and> fst (Insert G u w) = Inl err
      \<longrightarrow> err = FailedToInsertUserAfter 3 (Some DeadlineExceeded)
        \<and> new_events w (snd (Insert G u w)) =
            [Issued (insert_user u hp) (clock w), Slept (Second * 2),
             Issued (insert_user u hp) (clock w + Second * 2), Slept (Second * 2),
             Issued (insert_user u hp) (clock w + Second * 4)]
        \<and> \<not> one_shot w (snd (Insert G u w))" by (rule impI)
  from i2 have j2: "G (bytes (User.Password u)) 12 = Inr hp \<and> faults w = Some e1 # Some e2 # fs
      \<longrightarrow> fst (Insert G u w) = Inl (FailedToInsertUserAfter 3 (Some DeadlineExceeded))"
    by (rule impI)
  from i3 have j3: "G (bytes (User.Password u)) 12 = Inr hp \<and> faults w = [Some e1]
        \<and> (\<forall>r \<in> set (users w). users_email r \<noteq> User.Email u)
      \<longrightarrow> fst (Insert G u w) = Inr 0
        \<and> new_events w (snd (Insert G u w)) =
            [Issued (insert_user u hp) (clock w), Slept (Second * 2),
             Issued (insert_user u hp) (clock w + Second * 2)]" by (rule impI)
  from i4 have j4: "G (bytes (User.Password u)) 12 = Inl be \<longrightarrow> Insert G u w = (Inl (Bcrypt be), w)"
    by (rule impI)
  from f1 have g1: "faults w = Some e # fs
      \<longrightarrow> fst (GetAll w) = Inl (Db e)
        \<and> fst (GetByEmail email w) = Inl (if e = ErrNoRows then NoUserFoundWithEmail email else Db e)
        \<and> fst (GetByID uid w) = Inl (if e = ErrNoRows then UserNotFound else Db e)
        \<and> fst (Update user w) = Some (Db e)
        \<and> fst (Delete uid w) = Some (Db e)
        \<and> fst (GetByToken p w) = Inl (if e = ErrNoRows then NoPlainTextFound p else Db e)
        \<and> fst (InsertToken tk w) = Some (Db e)
        \<and> new_events w (snd (InsertToken tk w)) = [Issued (delete_token (Token.Token tk)) (clock w)]
        \<and> fst (DeleteToken p w) = Some (Db e)
        \<and> fst (GetUserByToken tk w)
            = Inl (if e = ErrNoRows then NoUserFoundWithToken tk else Db e)
        \<and> fst (GetUserWithToken int_of_text token w)
            = Inl (if e = ErrNoRows then NoUserFoundWithTokenString token else Db e)
        \<and> fst (VaildateToken int_of_text token w)
            = (False, Some (if e = ErrNoRows then NoUserFoundWithTokenString token else Db e))" by (rule impI)
  from f2 have g2: "faults w = Some e # fs \<and> bearer_shape h t \<and> length t = 26
      \<longrightarrow> fst (AuthenticationToken h w) = Inl NoMatchingTokenFound
        \<and> new_events w (snd (AuthenticationToken h w)) = [Issued (select_token t) (clock w)]"
    by (rule impI)
  from f3 have g3: "length (entropy w) < 16 \<longrightarrow> fst (GenerateToken Sum256 uid ttl w) = Inl RandError"
    by (rule impI)
  from j1 j2 j3 j4 o g1 g2 g3 show ?thesis by (intro conjI)
qed

theorem only_Insert_retries_witness:
  "fst (Insert toy_hash alice down_db) = Inl (FailedToInsertUserAfter 3 (Some DeadlineExceeded))
   \<and> new_events down_db (snd (Insert toy_hash alice down_db)) =
        [Issued (insert_user alice (bytes ''$2a$12$correct horse'')) noon, Slept (Second * 2),
         Issued (insert_user alice (bytes ''$2a$12$correct horse'')) (noon + Second * 2),
         Slept (Second * 2),
         Issued (insert_user alice (bytes ''$2a$12$correct horse'')) (noon + Second * 4)]
   \<and> fst (Insert toy_hash alice flaky_db) = Inr 0
   \<and> new_events flaky_db (snd (Insert toy_hash alice flaky_db)) =
        [Issued (insert_user alice (bytes ''$2a$12$correct horse'')) noon, Slept (Second * 2),
         Issued (insert_user alice (bytes ''$2a$12$correct horse'')) (noon + Second * 2)]
   \<and> fst (Delete 1 flaky_db) = Some (Db (DriverError 1))
   \<and> fst (InsertToken session flaky_db) = Some (Db (DriverError 1))
   \<and> new_events flaky_db (snd (InsertToken session flaky_db))
        = [Issued (delete_token (Token.Token session)) noon]
   \<and> fst (AuthenticationToken (''Bearer '' @ letters) flaky_db) = Inl NoMatchingTokenFound
   \<and> new_events flaky_db (snd (AuthenticationToken (''Bearer '' @ letters) flaky_db))
        = [Issued (select_token letters) noon]
   \<and> fst (GenerateToken (\<lambda>_. 0) 1 (Second * 86400) flaky_db) = Inl RandError"
proof -
  let ?hp = "bytes ''$2a$12$correct horse''"
  let ?err = "FailedToInsertUserAfter 3 (Some DeadlineExceeded)"
  note down = only_Insert_retries [where G = toy_hash and u = alice and hp = ?hp and w = down_db
      and ?e1.0 = "DriverError 1" and ?e2.0 = "DriverError 2" and fs = "[]" and err = ?err]
  note flaky = only_Insert_retries [where G = toy_hash and u = alice and hp = ?hp and w = flaky_db
      and ?e1.0 = "DriverError 1" and e = "DriverError 1" and fs = "[]" and uid = 1
      and tk = session and h = "''Bearer '' @ letters" and t = letters
      and ?Sum256.0 = "\<lambda>_. 0" and ttl = "Second * 86400"]
  have 1: "fst (Insert toy_hash alice down_db) = Inl ?err"
    using down toy_hash_alice down_db_simps(1) by blast
  then have 2: "new_events down_db (snd (Insert toy_hash alice down_db)) =
        [Issued (insert_user alice ?hp) noon, Slept (Second * 2),
         Issued (insert_user alice ?hp) (noon + Second * 2), Slept (Second * 2),
         Issued (insert_user alice ?hp) (noon + Second * 4)]"
    using down toy_hash_alice unfolding down_db_simps(2) by blast
  have n: "\<forall>r \<in> set (users flaky_db). users_email r \<noteq> User.Email alice"
    by (simp add: flaky_db_simps)
  have 3: "fst (Insert toy_hash alice flaky_db) = Inr 0"
    and 4: "new_events flaky_db (snd (Insert toy_hash alice flaky_db)) =
        [Issued (insert_user alice ?hp) noon, Slept (Second * 2),
         Issued (insert_user alice ?hp) (noon + Second * 2)]"
    using flaky toy_hash_alice flaky_db_simps(1) n unfolding flaky_db_simps(3) by blast+
  have 5: "fst (Delete 1 flaky_db) = Some (Db (DriverError 1))"
    and 6: "fst (InsertToken session flaky_db) = Some (Db (DriverError 1))"
    and 7: "new_events flaky_db (snd (InsertToken session flaky_db))
        = [Issued (delete_token (Token.Token session)) noon]"
    using flaky flaky_db_simps(1) unfolding flaky_db_simps(3) by blast+
  have 8: "fst (AuthenticationToken (''Bearer '' @ letters) flaky_db) = Inl NoMatchingTokenFound"
    and 9: "new_events flaky_db (snd (AuthenticationToken (''Bearer '' @ letters) flaky_db))
        = [Issued (select_token letters) noon]"
    using flaky flaky_db_simps(1) bearer_letters unfolding flaky_db_simps(3) by blast+
  have "length (entropy flaky_db) < 16" by (simp add: flaky_db_simps)
  then have 10: "fst (GenerateToken (\<lambda>_. 0) 1 (Second * 86400) flaky_db) = Inl RandError"
    using flaky by blast
  from 1 2 3 4 5 6 7 8 9 10 show ?thesis by (intro conjI)
qed

lemma lost_db_simps:
  "faults lost_db = [Some (DriverError 1)]" "users lost_db = [alice_row]" "clock lost_db = noon"
  by (simp_all add: lost_db_def users_db_def empty_db_def)

text \<open>
  C8 on the code. \<^verbatim>\<open>Insert\<close> alone retries, three attempts two seconds apart, and
  no other method retries. But not every other failure is returned:
  \<^verbatim>\<open>ResetPassword\<close>, whose comment says that it returns an error "if there is an error
  resetting the password", logs the error of its statement and ends in \<^verbatim>\<open>return nil\<close>.
  On a connection that fails the statement, the password of Alice's row is not
  changed and \<^verbatim>\<open>ResetPassword\<close> returns no error; \<^verbatim>\<open>Update\<close> on the same connection
  returns the error.
\<close>

theorem ResetPassword_returns_nil_on_failure:
  "faults lost_db = [Some (DriverError 1)]
   \<and> users lost_db = [alice_row]
   \<and> fst (ResetPassword (scan_user alice_row) ''new password'' lost_db) = None
   \<and> users (snd (ResetPassword (scan_user alice_row) ''new password'' lost_db)) = [alice_row]
   \<and> new_events lost_db (snd (ResetPassword (scan_user alice_row) ''new password'' lost_db))
        = [Issued (update_password ''new password'' 1) noon]
   \<and> fst (Update (scan_user alice_row) lost_db) = Some (Db (DriverError 1))"
proof -
  have 1: "fst (ResetPassword (scan_user alice_row) ''new password'' lost_db) = None"
    by (rule ResetPassword_trace)
  have 2: "users (snd (ResetPassword (scan_user alice_row) ''new password'' lost_db)) = [alice_row]"
    using dbTimeout_pos
    by (simp add: ResetPassword_def ExecContext_def issue_eq Let_def WithTimeout_def lost_db_simps)
  have 3: "new_events lost_db (snd (ResetPassword (scan_user alice_row) ''new password'' lost_db))
        = [Issued (update_password ''new password'' 1) noon]"
    using ResetPassword_trace(1) [of "scan_user alice_row" "''new password''" lost_db]
    by (simp add: new_events_append lost_db_simps scan_user_def alice_row_def)
  have 4: "fst (Update (scan_user alice_row) lost_db) = Some (Db (DriverError 1))"
    by (rule Update_trace(3) [OF lost_db_simps(1)])
  from lost_db_simps(1,2) 1 2 3 4 show ?thesis by (intro conjI)
qed

end
